theory Spec2Isabelle
  imports Main "HOL-Library.Sublist"
begin

section \<open>Byte strings and the Python primitives the client uses\<close>

text \<open>
  A Python \<^verbatim>\<open>bytes\<close> value is a \<^typ>\<open>string\<close>: a list of 8-bit characters. A text
  frame reaches the codec as \<^verbatim>\<open>received.data.encode("utf-8")\<close>; UTF-8 encoding distributes
  over concatenation and never produces the bytes CR, LF or colon inside the encoding of another
  code point, so the outbound messages are modelled directly on their UTF-8 bytes.
\<close>

abbreviation CR :: char where "CR \<equiv> CHR 0x0D"
abbreviation LF :: char where "LF \<equiv> CHR 0x0A"
abbreviation crlf :: string where "crlf \<equiv> [CR, LF]"
abbreviation blank_line :: string where "blank_line \<equiv> [CR, LF, CR, LF]"

text \<open>Exceptions of the client, the orchestrator and their collaborators, as values.\<close>

datatype cause = NetworkOrProxy | InvalidCharsOrTooLong | ServiceOutage

datatype message =
    StreamOnce                      \<comment> \<open>\<^verbatim>\<open>"stream can only be called once."\<close>\<close>
  | NoDataAfter nat "cause list"    \<comment> \<open>the user-facing text of \<^verbatim>\<open>_generate_audio\<close>\<close>
  | MergeFailed string              \<comment> \<open>the ffmpeg failure text with the tool's stderr\<close>

datatype exn =
    ValueError
  | WebSocketError string
  | NoAudioReceived
  | ClientResponseError nat
  | RuntimeError message "exn option"
  | TypeError
  | OSError
  | CalledProcessError string
  | OtherError string

text \<open>\<^verbatim>\<open>data[:h]\<close> and \<^verbatim>\<open>data[h:]\<close>: a negative index counts from the end, and both clamp.\<close>

definition slice_to :: "'a list \<Rightarrow> int \<Rightarrow> 'a list" where
  "slice_to xs h = (if h < 0 then take (nat (int (length xs) + h)) xs else take (nat h) xs)"

definition slice_from :: "'a list \<Rightarrow> int \<Rightarrow> 'a list" where
  "slice_from xs h = (if h < 0 then drop (nat (int (length xs) + h)) xs else drop (nat h) xs)"

text \<open>\<^verbatim>\<open>s.find(sub)\<close>: the lowest index at which \<open>sub\<close> occurs in \<open>s\<close>, or \<open>-1\<close>.\<close>

fun find_opt :: "'a list \<Rightarrow> 'a list \<Rightarrow> nat option" where
  "find_opt sub [] = (if sub = [] then Some 0 else None)"
| "find_opt sub (c # cs) =
     (if prefix sub (c # cs) then Some 0 else map_option Suc (find_opt sub cs))"

definition bytes_find :: "string \<Rightarrow> string \<Rightarrow> int" where
  "bytes_find s sub = (case find_opt sub s of None \<Rightarrow> - 1 | Some i \<Rightarrow> int i)"

text \<open>\<^verbatim>\<open>s.split(b"\r\n")\<close>: the pieces between the occurrences of CR LF, scanned left to right.\<close>

fun split_crlf :: "string \<Rightarrow> string list" where
  "split_crlf [] = [[]]"
| "split_crlf [c] = [[c]]"
| "split_crlf (c # d # cs) =
     (if c = CR \<and> d = LF then [] # split_crlf cs
      else (case split_crlf (d # cs) of
              [] \<Rightarrow> [[c]]
            | l # ls \<Rightarrow> (c # l) # ls))"

text \<open>
  \<^verbatim>\<open>key, value = line.split(b":", 1)\<close>: the line is cut at its first colon; a line with no
  colon gives a one-element list, and unpacking it raises \<^verbatim>\<open>ValueError\<close>.
\<close>

definition split_colon :: "string \<Rightarrow> exn + (string \<times> string)" where
  "split_colon line =
     (if CHR '':'' \<in> set line
      then Inr (takeWhile (\<lambda>c. c \<noteq> CHR '':'') line, tl (dropWhile (\<lambda>c. c \<noteq> CHR '':'') line))
      else Inl ValueError)"

text \<open>\<^verbatim>\<open>int.from_bytes(b, "big")\<close>.\<close>

definition from_bytes_big :: "string \<Rightarrow> nat" where
  "from_bytes_big bs = foldl (\<lambda>acc b. 256 * acc + of_char b) 0 bs"

section \<open>Frame codec (\<^verbatim>\<open>ssml_client.py\<close>)\<close>

type_synonym headers = "string \<rightharpoonup> string"

fun parse_headers :: "string list \<Rightarrow> headers \<Rightarrow> exn + headers" where
  "parse_headers [] h = Inr h"
| "parse_headers (l # ls) h =
     (case split_colon l of
        Inl e \<Rightarrow> Inl e
      | Inr (k, v) \<Rightarrow> parse_headers ls (h(k \<mapsto> v)))"

text \<open>
  \<^verbatim>\<open>get_headers_and_data(data, header_length)\<close>. The \<^verbatim>\<open>isinstance\<close> check cannot fail
  here: both callers pass bytes.
\<close>

definition get_headers_and_data :: "string \<Rightarrow> int \<Rightarrow> exn + (headers \<times> string)" where
  "get_headers_and_data data header_length =
     (case parse_headers (split_crlf (slice_to data header_length)) Map.empty of
        Inl e \<Rightarrow> Inl e
      | Inr hs \<Rightarrow> Inr (hs, slice_from data (header_length + 2)))"

text \<open>The outbound payload message, \<^verbatim>\<open>ssml_headers_plus_data\<close>.\<close>

definition ssml_headers_plus_data :: "string \<Rightarrow> string \<Rightarrow> string \<Rightarrow> string" where
  "ssml_headers_plus_data request_id timestamp ssml =
     ''X-RequestId:'' @ request_id @ crlf @
     ''Content-Type:application/ssml+xml'' @ crlf @
     ''X-Timestamp:'' @ timestamp @ ''Z'' @ crlf @
     ''Path:ssml'' @ crlf @ crlf @
     ssml"

text \<open>
  The outbound configuration message of \<^verbatim>\<open>send_command_request\<close>, with the timestamp
  (\<^verbatim>\<open>date_to_string()\<close> in the source) and the output format as arguments.
\<close>

definition config_body :: "string \<Rightarrow> string" where
  \<open>config_body output_format =
     ''{"context":{"synthesis":{"audio":{"metadataoptions":{'' @
     ''"sentenceBoundaryEnabled":"false","wordBoundaryEnabled":"false"'' @
     ''},"outputFormat":"'' @ output_format @ ''"}}}}'' @ crlf\<close>

definition command_request :: "string \<Rightarrow> string \<Rightarrow> string" where
  "command_request timestamp output_format =
     ''X-Timestamp:'' @ timestamp @ crlf @
     ''Content-Type:application/json; charset=utf-8'' @ crlf @
     ''Path:speech.config'' @ crlf @ crlf @
     config_body output_format"

text \<open>
  What the text-frame handler of the session does with an inbound text message: find the first
  blank line and hand the message and that index to \<^verbatim>\<open>get_headers_and_data\<close>.
\<close>

definition decode_text :: "string \<Rightarrow> exn + (headers \<times> string)" where
  "decode_text encoded_data =
     get_headers_and_data encoded_data (bytes_find encoded_data blank_line)"

text \<open>
  The header map and the line structure that the two outbound messages are built from: what a
  decoder is expected to give back.
\<close>

definition payload_headers :: "string \<Rightarrow> string \<Rightarrow> headers" where
  "payload_headers request_id timestamp =
     [''X-RequestId'' \<mapsto> request_id,
      ''Content-Type'' \<mapsto> ''application/ssml+xml'',
      ''X-Timestamp'' \<mapsto> timestamp @ ''Z'',
      ''Path'' \<mapsto> ''ssml'']"

definition config_headers :: "string \<Rightarrow> headers" where
  "config_headers timestamp =
     [''X-Timestamp'' \<mapsto> timestamp,
      ''Content-Type'' \<mapsto> ''application/json; charset=utf-8'',
      ''Path'' \<mapsto> ''speech.config'']"

text \<open>A byte string in which CR is nowhere followed by LF.\<close>

fun no_crlf :: "string \<Rightarrow> bool" where
  "no_crlf (c # d # cs) = (\<not> (c = CR \<and> d = LF) \<and> no_crlf (d # cs))"
| "no_crlf _ = True"

fun join_crlf :: "string list \<Rightarrow> string" where
  "join_crlf [] = []"
| "join_crlf [l] = l"
| "join_crlf (l # m # ls) = l @ crlf @ join_crlf (m # ls)"

section \<open>Streaming synthesis session (\<^verbatim>\<open>SSMLCommunicate\<close>)\<close>

text \<open>
  An inbound WebSocket message, by \<^verbatim>\<open>received.type\<close>: a text message (already encoded to
  UTF-8), a binary message, an error message with its data (the empty string is the falsy case),
  or a message of any other type, which the loop passes over.
\<close>

datatype ws_msg = TEXT string | BINARY string | ERROR string | OTHER

text \<open>
  One connection attempt as the network presents it: either \<^verbatim>\<open>ws_connect\<close> (or one of the
  two sends) raises, or the connection delivers a sequence of messages, after which the iteration
  ends because the connection closed (\<open>None\<close>) or because receiving raised (\<open>Some e\<close>).
\<close>

datatype conn = Refused exn | Opened "ws_msg list" "exn option"

text \<open>
  The \<^verbatim>\<open>async for received in websocket\<close> loop of \<^verbatim>\<open>__stream\<close>. The result is the list
  of audio buffers yielded, in order, how the loop ended (\<open>None\<close>: by \<^verbatim>\<open>break\<close> or by the end
  of the iteration; \<open>Some e\<close>: by raising \<open>e\<close>), and the flag \<^verbatim>\<open>audio_was_received\<close>.
\<close>

fun frame_loop :: "ws_msg list \<Rightarrow> exn option \<Rightarrow> bool \<Rightarrow> string list \<times> exn option \<times> bool" where
  "frame_loop [] closing audio_was_received = ([], closing, audio_was_received)"
| "frame_loop (TEXT encoded_data # rest) closing audio_was_received =
     (case get_headers_and_data encoded_data (bytes_find encoded_data blank_line) of
        Inl e \<Rightarrow> ([], Some e, audio_was_received)
      | Inr (parameters, data) \<Rightarrow>
          if parameters ''Path'' = Some ''turn.end'' then ([], None, audio_was_received)
          else frame_loop rest closing audio_was_received)"
| "frame_loop (BINARY received_data # rest) closing audio_was_received =
     (if length received_data < 2 then frame_loop rest closing audio_was_received
      else
        let header_length = from_bytes_big (take 2 received_data) in
        if header_length > length received_data then frame_loop rest closing audio_was_received
        else
          (case get_headers_and_data received_data (int header_length) of
             Inl e \<Rightarrow> ([], Some e, audio_was_received)
           | Inr (parameters, data) \<Rightarrow>
               if parameters ''Path'' \<noteq> Some ''audio'' then
                 frame_loop rest closing audio_was_received
               else if parameters ''Content-Type'' = None \<and> length data = 0 then
                 frame_loop rest closing audio_was_received
               else if length data > 0 then
                 (case frame_loop rest closing True of
                    (yielded, outcome, flag) \<Rightarrow> (data # yielded, outcome, flag))
               else frame_loop rest closing audio_was_received))"
| "frame_loop (ERROR data # rest) closing audio_was_received =
     ([], Some (WebSocketError (if data \<noteq> [] then data else ''Unknown error'')),
      audio_was_received)"
| "frame_loop (OTHER # rest) closing audio_was_received =
     frame_loop rest closing audio_was_received"

text \<open>
  \<^verbatim>\<open>__stream\<close> on one connection: the buffers yielded and the exception that ends the
  generator, if any. After a loop that ended without raising, the flag decides.
\<close>

definition run_stream :: "conn \<Rightarrow> string list \<times> exn option" where
  "run_stream c =
     (case c of
        Refused e \<Rightarrow> ([], Some e)
      | Opened msgs closing \<Rightarrow>
          (case frame_loop msgs closing False of
             (yielded, Some e, flag) \<Rightarrow> (yielded, Some e)
           | (yielded, None, flag) \<Rightarrow>
               if \<not> flag then (yielded, Some NoAudioReceived) else (yielded, None)))"

text \<open>
  The mutable world: the files, the number of connection attempts made so far, the number of
  calls of the token-refresh handler, and the number of temporary names handed out.
\<close>

type_synonym path = string

record world =
  files :: "path \<rightharpoonup> string"
  connections :: nat
  refreshes :: nat
  temps :: nat

text \<open>A Python \<^verbatim>\<open>str\<close> is a list of code points.\<close>

type_synonym ustr = "nat list"

text \<open>
  The surroundings of the worker, which the code under study calls and does not define: the
  \<open>n\<close>-th connection attempt of the process behaves as \<open>network n\<close>;
  \<^verbatim>\<open>DRM.handle_client_response_error\<close> (which adjusts the clock skew the next token is signed
  with) returns normally or raises, per call; opening a file for writing succeeds on the
  \<open>writable\<close> paths; \<open>communicate_save\<close> is \<^verbatim>\<open>edge_tts.Communicate(...).save\<close> under
  \<^verbatim>\<open>asyncio.wait_for\<close>; \<open>ffmpeg\<close> is the concat run of the external tool on a manifest and an
  output path; \<open>temp_name\<close> is the name supply of \<^verbatim>\<open>tempfile.mkstemp\<close>; \<open>list_path\<close> is
  \<^verbatim>\<open>output_path.with_suffix('.txt')\<close>; \<open>prepare_text\<close> is \<^verbatim>\<open>prepare_text_for_tts\<close>
  (dictionary, yoditor and the Gemini service) as a function of the text that returns the
  processed text or raises.
\<close>

record env =
  network :: "nat \<Rightarrow> conn"
  handle_client_response_error :: "nat \<Rightarrow> exn option"
  writable :: "path \<Rightarrow> bool"
  communicate_save :: "path \<Rightarrow> world \<Rightarrow> exn option \<times> world"
  ffmpeg :: "path \<Rightarrow> path \<Rightarrow> world \<Rightarrow> exn option \<times> world"
  temp_name :: "nat \<Rightarrow> path"
  list_path :: "path \<Rightarrow> path"
  prepare_text :: "ustr \<Rightarrow> exn + ustr"

text \<open>The instance state of an \<^verbatim>\<open>SSMLCommunicate\<close> object.\<close>

record session =
  stream_was_called :: bool

definition new_session :: session where
  "new_session = \<lparr>stream_was_called = False\<rparr>"

text \<open>\<^verbatim>\<open>__stream\<close> in the world: it uses up one connection attempt.\<close>

definition private_stream :: "env \<Rightarrow> world \<Rightarrow> (string list \<times> exn option) \<times> world" where
  "private_stream E w =
     (run_stream (network E (connections w)), w\<lparr>connections := Suc (connections w)\<rparr>)"

text \<open>
  \<^verbatim>\<open>stream\<close>, driven to its end: the buffers the caller receives, the exception that ends the
  generator (if any), and the new instance state and world.
\<close>

definition stream ::
  "env \<Rightarrow> session \<Rightarrow> world \<Rightarrow> (string list \<times> exn option) \<times> session \<times> world" where
  "stream E s w =
     (if stream_was_called s then (([], Some (RuntimeError StreamOnce None)), s, w)
      else
        let s1 = s\<lparr>stream_was_called := True\<rparr> in
        (case private_stream E w of
           ((first, Some (ClientResponseError status)), w1) \<Rightarrow>
             if status \<noteq> 403 then ((first, Some (ClientResponseError status)), s1, w1)
             else
               (case handle_client_response_error E (refreshes w1) of
                  Some e \<Rightarrow> ((first, Some e), s1, w1\<lparr>refreshes := Suc (refreshes w1)\<rparr>)
                | None \<Rightarrow>
                    (case private_stream E (w1\<lparr>refreshes := Suc (refreshes w1)\<rparr>) of
                       ((second, outcome), w2) \<Rightarrow> ((first @ second, outcome), s1, w2)))
         | ((first, outcome), w1) \<Rightarrow> ((first, outcome), s1, w1)))"

text \<open>
  \<^verbatim>\<open>save\<close>: the file is opened for writing (created or truncated), every buffer of the stream
  is written as it arrives, and the file is closed also when the stream raises.
\<close>

definition save :: "env \<Rightarrow> path \<Rightarrow> session \<Rightarrow> world \<Rightarrow> exn option \<times> session \<times> world" where
  "save E audio_fname s w =
     (if \<not> writable E audio_fname then (Some OSError, s, w)
      else
        (case stream E s (w\<lparr>files := (files w)(audio_fname \<mapsto> [])\<rparr>) of
           ((yielded, outcome), s1, w1) \<Rightarrow>
             (outcome, s1, w1\<lparr>files := (files w1)(audio_fname \<mapsto> concat yielded)\<rparr>)))"

section \<open>Fallback and retry orchestrator (\<^verbatim>\<open>tts_worker.py\<close>)\<close>

text \<open>
  The three request constructions of \<^verbatim>\<open>_attempt_generate_audio\<close>, in the order of the
  source: SSML with \<^verbatim>\<open>mstts:silence\<close>, SSML with breaks only, and the plain-text (or raw SSML)
  request through the third-party client.
\<close>

datatype tier = SilenceTagged | BreakTagged | PlainOrRawText

text \<open>What the orchestrator does that a test double can observe.\<close>

datatype event = Attempt tier | Sleep nat

text \<open>
  One synthesis on one tier: build the request, create the communicator, save to the destination
  and read the size of the file. It either raises or returns the size. The orchestrator is
  written over any such function, which is how a fake session is put under it.
\<close>

type_synonym 'w synth = "tier \<Rightarrow> 'w \<Rightarrow> (exn + nat) \<times> 'w"

text \<open>
  \<^verbatim>\<open>_attempt_generate_audio\<close>: each of the first two tiers is tried once inside its own
  \<^verbatim>\<open>try\<close>, whose handler logs and falls through; the last tier is outside any handler.
\<close>

definition attempt_generate_audio :: "'w synth \<Rightarrow> 'w \<Rightarrow> (exn + nat) \<times> event list \<times> 'w" where
  "attempt_generate_audio synth w =
     (case synth SilenceTagged w of
        (Inr nbytes, w1) \<Rightarrow> (Inr nbytes, [Attempt SilenceTagged], w1)
      | (Inl exc, w1) \<Rightarrow>
          (case synth BreakTagged w1 of
             (Inr nbytes, w2) \<Rightarrow> (Inr nbytes, [Attempt SilenceTagged, Attempt BreakTagged], w2)
           | (Inl exc, w2) \<Rightarrow>
               (case synth PlainOrRawText w2 of
                  (res, w3) \<Rightarrow>
                    (res, [Attempt SilenceTagged, Attempt BreakTagged, Attempt PlainOrRawText], w3))))"

text \<open>
  The \<^verbatim>\<open>for attempt in range(1, max_retries + 1)\<close> loop of \<^verbatim>\<open>_generate_audio\<close>, with
  \<^verbatim>\<open>last_error\<close> carried along. It returns the size, or falls out of the loop with the last
  error.
\<close>

fun retry_loop ::
  "'w synth \<Rightarrow> nat \<Rightarrow> nat list \<Rightarrow> exn option \<Rightarrow> 'w \<Rightarrow> (exn option + nat) \<times> event list \<times> 'w" where
  "retry_loop synth max_retries [] last_error w = (Inl last_error, [], w)"
| "retry_loop synth max_retries (attempt # remaining) last_error w =
     (case attempt_generate_audio synth w of
        (Inr nbytes, evs, w1) \<Rightarrow> (Inr nbytes, evs, w1)
      | (Inl e, evs, w1) \<Rightarrow>
          (case retry_loop synth max_retries remaining (Some e) w1 of
             (res, later, w2) \<Rightarrow>
               (res, evs @ (if attempt < max_retries then [Sleep (1 * attempt)] else []) @ later, w2)))"

text \<open>
  The three numbered lines of the user-facing message: connection or proxy problems; invalid
  characters or a text that is too long; a temporary failure of the service.
\<close>

definition likely_causes :: "cause list" where
  "likely_causes = [NetworkOrProxy, InvalidCharsOrTooLong, ServiceOutage]"

text \<open>
  \<^verbatim>\<open>_generate_audio\<close>. After the loop, \<^verbatim>\<open>raise ... from last_error\<close> when the last error is
  a \<^verbatim>\<open>NoAudioReceived\<close>, and \<^verbatim>\<open>raise last_error\<close> otherwise (raising \<^verbatim>\<open>None\<close> is a
  \<^verbatim>\<open>TypeError\<close>).
\<close>

definition generate_audio :: "'w synth \<Rightarrow> 'w \<Rightarrow> (exn + nat) \<times> event list \<times> 'w" where
  "generate_audio synth w =
     (let max_retries = 3 in
      case retry_loop synth max_retries [1..<max_retries + 1] None w of
        (Inr nbytes, evs, w1) \<Rightarrow> (Inr nbytes, evs, w1)
      | (Inl last_error, evs, w1) \<Rightarrow>
          (case last_error of
             Some NoAudioReceived \<Rightarrow>
               (Inl (RuntimeError (NoDataAfter max_retries likely_causes) (Some NoAudioReceived)),
                evs, w1)
           | Some e \<Rightarrow> (Inl e, evs, w1)
           | None \<Rightarrow> (Inl TypeError, evs, w1)))"

text \<open>The tiers attempted, in order, read off a list of events.\<close>

definition attempts :: "event list \<Rightarrow> tier list" where
  "attempts evs = concat (map (\<lambda>ev. case ev of Attempt t \<Rightarrow> [t] | Sleep n \<Rightarrow> []) evs)"

section \<open>Chunker (\<^verbatim>\<open>TtsWorker._chunk_text\<close>)\<close>

text \<open>
  The text is a list of code points and \<^verbatim>\<open>max_chars\<close> a natural number; the one caller
  passes 5000.
\<close>

text \<open>
  The characters \<^verbatim>\<open>str.strip()\<close> removes: those for which \<^verbatim>\<open>str.isspace\<close> holds.
\<close>

definition is_space :: "nat \<Rightarrow> bool" where
  "is_space c =
     ((9 \<le> c \<and> c \<le> 13) \<or> (28 \<le> c \<and> c \<le> 32) \<or> c = 133 \<or> c = 160 \<or> c = 5760 \<or>
      (8192 \<le> c \<and> c \<le> 8202) \<or> c = 8232 \<or> c = 8233 \<or> c = 8239 \<or> c = 8287 \<or> c = 12288)"

definition strip :: "ustr \<Rightarrow> ustr" where
  "strip s = rev (dropWhile is_space (rev (dropWhile is_space s)))"

text \<open>\<^verbatim>\<open>s.rfind(sub)\<close>: the highest index at which \<open>sub\<close> occurs in \<open>s\<close>, or \<open>-1\<close>.\<close>

definition rfind :: "'a list \<Rightarrow> 'a list \<Rightarrow> int" where
  "rfind s sub =
     (case filter (\<lambda>i. prefix sub (drop i s)) (rev [0..<Suc (length s)]) of
        [] \<Rightarrow> - 1
      | i # _ \<Rightarrow> int i)"

text \<open>
  The sentence terminators of the source, in its order: full stop, exclamation mark and question
  mark, each followed by a space, then each followed by a newline.
\<close>

definition terminators :: "ustr list" where
  "terminators = [[46, 32], [33, 32], [63, 32], [46, 10], [33, 10], [63, 10]]"

text \<open>
  The body of the \<^verbatim>\<open>while\<close> loop up to the choice of \<^verbatim>\<open>split_idx\<close>: after the last sentence
  terminator in the window, else at the last newline, else at the last space, else at
  \<^verbatim>\<open>max_chars\<close>.
\<close>

definition split_index :: "ustr \<Rightarrow> nat \<Rightarrow> int" where
  "split_index text max_chars =
     (let limit_text = take max_chars text;
          split_idx = foldl (\<lambda>split_idx char.
                         let idx = rfind limit_text char in
                         if idx \<noteq> - 1 then max split_idx (idx + 1) else split_idx)
                       (- 1) terminators;
          split_idx = (if split_idx = - 1 then rfind limit_text [10] else split_idx);
          split_idx = (if split_idx = - 1 then rfind limit_text [32] else split_idx);
          split_idx = (if split_idx = - 1 then int max_chars else split_idx)
      in split_idx)"

text \<open>
  The \<^verbatim>\<open>while len(text) > max_chars\<close> loop with the final \<^verbatim>\<open>if text\<close>. With
  \<^verbatim>\<open>max_chars = 0\<close> the source can loop forever, so the loop is a partial function and
  \<open>None\<close> stands for not returning.
\<close>

partial_function (option) chunk_loop :: "nat \<Rightarrow> ustr \<Rightarrow> ustr list \<Rightarrow> ustr list option" where
  "chunk_loop max_chars text chunks =
     (if length text > max_chars then
        chunk_loop max_chars
          (strip (slice_from text (split_index text max_chars)))
          (chunks @ [strip (slice_to text (split_index text max_chars))])
      else Some (if text \<noteq> [] then chunks @ [text] else chunks))"

definition chunk_text :: "ustr \<Rightarrow> nat \<Rightarrow> ustr list option" where
  "chunk_text text max_chars =
     (if length text \<le> max_chars then Some [text] else chunk_loop max_chars text [])"

section \<open>Synthesis to a file (\<^verbatim>\<open>TtsWorker._generate_single_file\<close>)\<close>

text \<open>\<^verbatim>\<open>not text or not text.strip()\<close>.\<close>

definition blank :: "ustr \<Rightarrow> bool" where
  "blank text = (text = [] \<or> strip text = [])"

text \<open>\<^verbatim>\<open>destination.stat().st_size\<close>: it raises when the file does not exist.\<close>

definition stat_size :: "path \<Rightarrow> world \<Rightarrow> exn + nat" where
  "stat_size p w = (case files w p of None \<Rightarrow> Inl OSError | Some b \<Rightarrow> Inr (length b))"

definition nonempty_file :: "world \<Rightarrow> path \<Rightarrow> bool" where
  "nonempty_file w p = (case files w p of None \<Rightarrow> False | Some b \<Rightarrow> b \<noteq> [])"

text \<open>
  One synthesis on one tier, as \<^verbatim>\<open>_attempt_generate_audio\<close> performs it: the first two tiers
  save through a new \<^verbatim>\<open>SSMLCommunicate\<close>, the third through the third-party client, and each
  then reads the size of the destination. The request text is not an argument: what the service
  answers to it is what the network of the surroundings says.
\<close>

definition synth_tier :: "env \<Rightarrow> path \<Rightarrow> world synth" where
  "synth_tier E destination t w =
     (case t of
        PlainOrRawText \<Rightarrow>
          (case communicate_save E destination w of
             (Some e, w1) \<Rightarrow> (Inl e, w1)
           | (None, w1) \<Rightarrow> (stat_size destination w1, w1))
      | _ \<Rightarrow>
          (case save E destination new_session w of
             (Some e, s, w1) \<Rightarrow> (Inl e, w1)
           | (None, s, w1) \<Rightarrow> (stat_size destination w1, w1)))"

text \<open>\<^verbatim>\<open>_temp_file_name\<close>: \<^verbatim>\<open>mkstemp\<close> creates an empty file under the next name.\<close>

definition temp_file_name :: "env \<Rightarrow> world \<Rightarrow> path \<times> world" where
  "temp_file_name E w =
     (temp_name E (temps w),
      w\<lparr>files := (files w)(temp_name E (temps w) \<mapsto> []), temps := Suc (temps w)\<rparr>)"

text \<open>
  The loop over the chunks: a temporary file per chunk, appended to \<^verbatim>\<open>temp_files\<close> once its
  audio is generated. The list is returned also when a chunk fails, for the cleanup.
\<close>

fun generate_chunks ::
  "env \<Rightarrow> ustr list \<Rightarrow> path list \<Rightarrow> world \<Rightarrow> exn option \<times> path list \<times> world" where
  "generate_chunks E [] temp_files w = (None, temp_files, w)"
| "generate_chunks E (chunk # rest) temp_files w =
     (case temp_file_name E w of
        (temp_file, w1) \<Rightarrow>
          (case generate_audio (synth_tier E temp_file) w1 of
             (Inl e, evs, w2) \<Rightarrow> (Some e, temp_files, w2)
           | (Inr n, evs, w2) \<Rightarrow> generate_chunks E rest (temp_files @ [temp_file]) w2))"

text \<open>\<^verbatim>\<open>if f.exists(): f.unlink()\<close>.\<close>

definition unlink_if_exists :: "path \<Rightarrow> world \<Rightarrow> world" where
  "unlink_if_exists p w = w\<lparr>files := (files w)(p := None)\<rparr>"

definition manifest :: "path list \<Rightarrow> string" where
  "manifest fs = concat (map (\<lambda>p. ''file '' @ [CHR 0x27] @ p @ [CHR 0x27, LF]) fs)"

text \<open>
  \<^verbatim>\<open>_merge_audio_files\<close>: the manifest is written, the tool is run, a
  \<^verbatim>\<open>CalledProcessError\<close> becomes the merge error, and the manifest is removed in every case.
\<close>

definition merge_audio_files :: "env \<Rightarrow> path list \<Rightarrow> path \<Rightarrow> world \<Rightarrow> exn option \<times> world" where
  "merge_audio_files E fs output_path w =
     (let list_file = list_path E output_path in
      if \<not> writable E list_file then (Some OSError, unlink_if_exists list_file w)
      else
        (case ffmpeg E list_file output_path (w\<lparr>files := (files w)(list_file \<mapsto> manifest fs)\<rparr>) of
           (Some (CalledProcessError stderr), w1) \<Rightarrow>
             (Some (RuntimeError (MergeFailed stderr) None), unlink_if_exists list_file w1)
         | (r, w1) \<Rightarrow> (r, unlink_if_exists list_file w1)))"

text \<open>The cleanup of the \<^verbatim>\<open>finally\<close> block.\<close>

definition cleanup :: "path list \<Rightarrow> world \<Rightarrow> world" where
  "cleanup temp_files w = foldl (\<lambda>v f. unlink_if_exists f v) w temp_files"

text \<open>
  \<^verbatim>\<open>_generate_single_file\<close>: \<open>Some (None, w')\<close> is a return without raising, \<open>Some (Some e, w')\<close>
  is raising \<open>e\<close>, and \<open>None\<close> is not returning.
\<close>

definition generate_single_file ::
  "env \<Rightarrow> ustr \<Rightarrow> path \<Rightarrow> world \<Rightarrow> (exn option \<times> world) option" where
  "generate_single_file E text final_destination w =
     (case prepare_text E text of
        Inl e \<Rightarrow> Some (Some e, w)
      | Inr text \<Rightarrow>
          if blank text then Some (None, w)
          else
            (case chunk_text text 5000 of
               None \<Rightarrow> None
             | Some chunks \<Rightarrow>
                 if length chunks = 1 then
                   (case generate_audio (synth_tier E final_destination) w of
                      (Inl e, evs, w1) \<Rightarrow> Some (Some e, w1)
                    | (Inr n, evs, w1) \<Rightarrow> Some (None, w1))
                 else
                   (case generate_chunks E chunks [] w of
                      (Some e, temp_files, w1) \<Rightarrow> Some (Some e, cleanup temp_files w1)
                    | (None, temp_files, w1) \<Rightarrow>
                        (case merge_audio_files E temp_files final_destination w1 of
                           (r, w2) \<Rightarrow> Some (r, cleanup temp_files w2)))))"

section \<open>Test doubles\<close>

text \<open>
  A binary audio frame as the service sends it (two length bytes, the header block, the
  payload), the closing text frame, and fake surroundings built from a network script.
\<close>

definition audio_frame :: "string \<Rightarrow> ws_msg" where
  "audio_frame payload =
     BINARY ([CHR 0x00, CHR 0x1B] @ ''X-RequestId:1'' @ crlf @ ''Path:audio'' @ crlf @ payload)"

definition turn_end :: ws_msg where
  "turn_end = TEXT (''X-RequestId:1'' @ crlf @ ''Path:turn.end'' @ crlf @ crlf)"

definition fake_env :: "(nat \<Rightarrow> conn) \<Rightarrow> env" where
  "fake_env net =
     \<lparr>network = net,
      handle_client_response_error = (\<lambda>n. None),
      writable = (\<lambda>p. True),
      communicate_save = (\<lambda>p w. (Some NoAudioReceived, w)),
      ffmpeg = (\<lambda>l out w. (None, w\<lparr>files := (files w)(out \<mapsto> ''merged'')\<rparr>)),
      temp_name = (\<lambda>k. ''tmp'' @ replicate k (CHR ''x'')),
      list_path = (\<lambda>p. p @ ''.txt''),
      prepare_text = Inr\<rparr>"

definition empty_world :: world where
  "empty_world = \<lparr>files = Map.empty, connections = 0, refreshes = 0, temps = 0\<rparr>"

definition refused_once :: "nat \<Rightarrow> conn" where
  "refused_once n =
     (if n = 0 then Refused (ClientResponseError 403)
      else Opened [audio_frame ''AB'', turn_end] None)"

definition refused_twice :: "nat \<Rightarrow> conn" where
  "refused_twice n =
     (if n < 2 then Refused (ClientResponseError 403)
      else Opened [audio_frame ''AB'', turn_end] None)"

definition refused_500 :: "nat \<Rightarrow> conn" where
  "refused_500 n =
     (if n = 0 then Refused (ClientResponseError 500)
      else Opened [audio_frame ''AB'', turn_end] None)"

definition cut_by_403 :: "nat \<Rightarrow> conn" where
  "cut_by_403 n =
     (if n = 0 then Opened [audio_frame ''AB''] (Some (ClientResponseError 403))
      else Opened [audio_frame ''AB'', audio_frame ''CD'', turn_end] None)"

definition fails_twice :: "unit synth" where
  "fails_twice t w = (case t of PlainOrRawText \<Rightarrow> (Inr 4096, w) | _ \<Rightarrow> (Inl NoAudioReceived, w))"

definition always_fails :: "exn \<Rightarrow> unit synth" where
  "always_fails e t w = (Inl e, w)"


text \<open>
  Surroundings whose token-refresh handler raises (the response carried no server date), a fake
  session that times out in its first round and gets no audio in the next two (its state counts
  the syntheses), and surroundings with no network whose third-party save writes an empty file
  and returns.
\<close>

definition raising_handler :: "env \<Rightarrow> env" where
  "raising_handler E =
     E\<lparr>handle_client_response_error := (\<lambda>n. Some (OtherError ''SkewAdjustmentError''))\<rparr>"

definition timeout_then_silence :: "nat synth" where
  "timeout_then_silence t n =
     (Inl (if n < 3 then OtherError ''timeout'' else NoAudioReceived), Suc n)"

definition silence_then_timeout :: "nat synth" where
  "silence_then_timeout t n =
     (Inl (if n < 8 then NoAudioReceived else OtherError ''timeout''), Suc n)"

definition empty_save_env :: env where
  "empty_save_env =
     (fake_env (\<lambda>n. Refused OSError))
       \<lparr>communicate_save := (\<lambda>p w. (None, w\<lparr>files := (files w)(p \<mapsto> [])\<rparr>))\<rparr>"

section \<open>Properties of the frame codec\<close>

lemma split_crlf_line: "no_crlf a \<Longrightarrow> split_crlf a = [a]"
  by (induction a rule: no_crlf.induct) (auto split: list.splits)

lemma split_crlf_app: "no_crlf a \<Longrightarrow> split_crlf (a @ CR # LF # b) = a # split_crlf b"
  by (induction a rule: no_crlf.induct) (auto split: list.splits)

lemma find_line:
  "no_crlf a \<Longrightarrow> \<not> prefix crlf r \<Longrightarrow>
   find_opt blank_line (a @ CR # LF # r) =
     map_option (\<lambda>k. k + length a + 2) (find_opt blank_line r)"
  by (induction a rule: no_crlf.induct) (auto simp: option.map_comp comp_def)

lemma find_last:
  "no_crlf a \<Longrightarrow> find_opt blank_line (a @ CR # LF # CR # LF # r) = Some (length a)"
  by (induction a rule: no_crlf.induct) auto

lemma no_crlf_not_prefix: "no_crlf a \<Longrightarrow> a \<noteq> [] \<Longrightarrow> \<not> prefix crlf (a @ CR # LF # r)"
  by (induction a rule: no_crlf.induct) auto

lemma split_join: "ls \<noteq> [] \<Longrightarrow> list_all no_crlf ls \<Longrightarrow> split_crlf (join_crlf ls) = ls"
  by (induction ls rule: join_crlf.induct) (auto simp: split_crlf_line split_crlf_app)

lemma join_not_prefix:
  "ls \<noteq> [] \<Longrightarrow> list_all no_crlf ls \<Longrightarrow> list_all (\<lambda>l. l \<noteq> []) ls \<Longrightarrow>
   \<not> prefix crlf (join_crlf ls @ CR # LF # r)"
proof (induction ls rule: join_crlf.induct)
  case 1
  then show ?case by simp
next
  case (2 l)
  then show ?case using no_crlf_not_prefix[of l r] by simp
next
  case (3 l m ls)
  then show ?case
    using no_crlf_not_prefix[of l "join_crlf (m # ls) @ CR # LF # r"] by simp
qed

lemma find_join:
  "ls \<noteq> [] \<Longrightarrow> list_all no_crlf ls \<Longrightarrow> list_all (\<lambda>l. l \<noteq> []) ls \<Longrightarrow>
   find_opt blank_line (join_crlf ls @ CR # LF # CR # LF # body) = Some (length (join_crlf ls))"
proof (induction ls rule: join_crlf.induct)
  case 1
  then show ?case by simp
next
  case (2 l)
  then show ?case by (simp add: find_last)
next
  case (3 l m ls)
  have np: "\<not> prefix crlf (join_crlf (m # ls) @ CR # LF # CR # LF # body)"
    using 3 join_not_prefix[of "m # ls" "CR # LF # body"] by simp
  have "find_opt blank_line (l @ CR # LF # (join_crlf (m # ls) @ CR # LF # CR # LF # body)) =
          map_option (\<lambda>k. k + length l + 2)
            (find_opt blank_line (join_crlf (m # ls) @ CR # LF # CR # LF # body))"
    using 3 np by (intro find_line) auto
  then show ?case using 3 by simp
qed

lemma slice_to_nat: "slice_to xs (int n) = take n xs"
  by (simp add: slice_to_def)

lemma slice_from_nat: "slice_from xs (int n + 2) = drop (n + 2) xs"
  by (simp add: slice_from_def nat_add_distrib)

text \<open>
  A message made of non-empty header lines free of CR LF, a blank line and a body decodes to the
  parsed lines, and to the body with the second half of the blank line still in front of it:
  the decoder skips two bytes after the header block, and the blank line has four.
\<close>

lemma decode_text_join:
  assumes "ls \<noteq> []" "list_all no_crlf ls" "list_all (\<lambda>l. l \<noteq> []) ls"
  shows "decode_text (join_crlf ls @ CR # LF # CR # LF # body) =
         (case parse_headers ls Map.empty of Inl e \<Rightarrow> Inl e | Inr h \<Rightarrow> Inr (h, crlf @ body))"
  using assms
  by (simp add: decode_text_def bytes_find_def find_join get_headers_and_data_def
        slice_to_nat slice_from_nat split_join split: sum.splits)

lemma no_crlf_Cons: "c \<noteq> CR \<Longrightarrow> no_crlf (c # a) = no_crlf a"
  by (cases a) auto

lemma no_crlf_snoc: "no_crlf a \<Longrightarrow> x \<noteq> LF \<Longrightarrow> no_crlf (a @ [x])"
  by (induction a rule: no_crlf.induct) auto

text \<open>
  Claim C2, as amended. For every output format and SSML body, and for every request id and
  timestamp in which CR is nowhere followed by LF, decoding the encoded payload message and the
  encoded configuration message at the first blank line gives back exactly the header map the
  message was built from, and the body of the message preceded by one CR LF.
\<close>

theorem frame_round_trip:
  assumes "no_crlf request_id" and "no_crlf timestamp"
  shows "decode_text (ssml_headers_plus_data request_id timestamp ssml) =
           Inr (payload_headers request_id timestamp, crlf @ ssml) \<and>
         decode_text (command_request timestamp output_format) =
           Inr (config_headers timestamp, crlf @ config_body output_format)"
proof
  let ?ls = "[''X-RequestId:'' @ request_id, ''Content-Type:application/ssml+xml'',
              ''X-Timestamp:'' @ timestamp @ ''Z'', ''Path:ssml'']"
  have m: "ssml_headers_plus_data request_id timestamp ssml =
             join_crlf ?ls @ CR # LF # CR # LF # ssml"
    by (simp add: ssml_headers_plus_data_def)
  have n: "list_all no_crlf ?ls"
    using assms no_crlf_snoc[of timestamp "CHR ''Z''"] by (simp add: no_crlf_Cons)
  have p: "parse_headers ?ls Map.empty = Inr (payload_headers request_id timestamp)"
    by (simp add: split_colon_def payload_headers_def)
  show "decode_text (ssml_headers_plus_data request_id timestamp ssml) =
           Inr (payload_headers request_id timestamp, crlf @ ssml)"
    unfolding m using n p by (subst decode_text_join) simp_all
next
  let ?ls = "[''X-Timestamp:'' @ timestamp, ''Content-Type:application/json; charset=utf-8'',
              ''Path:speech.config'']"
  have m: "command_request timestamp output_format =
             join_crlf ?ls @ CR # LF # CR # LF # config_body output_format"
    by (simp add: command_request_def)
  have n: "list_all no_crlf ?ls"
    using assms by (simp add: no_crlf_Cons)
  have p: "parse_headers ?ls Map.empty = Inr (config_headers timestamp)"
    by (simp add: split_colon_def config_headers_def)
  show "decode_text (command_request timestamp output_format) =
           Inr (config_headers timestamp, crlf @ config_body output_format)"
    unfolding m using n p by (subst decode_text_join) simp_all
qed

theorem frame_round_trip_witness:
  "no_crlf ''0f3a'' \<and>
   no_crlf ''Thu Jan 01 1970 00:00:00 GMT+0000 (Coordinated Universal Time)'' \<and>
   decode_text (ssml_headers_plus_data ''0f3a''
      ''Thu Jan 01 1970 00:00:00 GMT+0000 (Coordinated Universal Time)'' ''<speak/>'') =
     Inr (payload_headers ''0f3a''
      ''Thu Jan 01 1970 00:00:00 GMT+0000 (Coordinated Universal Time)'', crlf @ ''<speak/>'')"
proof -
  have a: "no_crlf ''0f3a''"
    by simp
  have b: "no_crlf ''Thu Jan 01 1970 00:00:00 GMT+0000 (Coordinated Universal Time)''"
    by simp
  show ?thesis
    using a b frame_round_trip[OF a b, of "''<speak/>''"] by blast
qed

text \<open>
  The claim as it was written fails already on an ordinary message: the decoded body is not the
  original body.
\<close>

theorem round_trip_body_counterexample:
  "decode_text (ssml_headers_plus_data ''0f3a'' ''Thu'' ''<speak/>'') \<noteq>
     Inr (payload_headers ''0f3a'' ''Thu'', ''<speak/>'')"
proof -
  have "decode_text (ssml_headers_plus_data ''0f3a'' ''Thu'' ''<speak/>'') =
     Inr (payload_headers ''0f3a'' ''Thu'', crlf @ ''<speak/>'')"
    using decode_text_join[of "[''X-RequestId:0f3a'', ''Content-Type:application/ssml+xml'',
              ''X-Timestamp:ThuZ'', ''Path:ssml'']" "''<speak/>''"]
    by (simp add: ssml_headers_plus_data_def split_colon_def payload_headers_def)
  then show ?thesis by simp
qed

text \<open>
  The side condition is needed: a request id that contains a blank line moves the first blank
  line of the message, and the rest of the header block is taken for the body.
\<close>

lemma request_id_with_blank_line:
  "decode_text (ssml_headers_plus_data blank_line ''Thu'' ''s'') =
     Inr ([''X-RequestId'' \<mapsto> []],
          blank_line @ ''Content-Type:application/ssml+xml'' @ crlf @ ''X-Timestamp:ThuZ'' @ crlf @
          ''Path:ssml'' @ crlf @ crlf @ ''s'')"
  by (simp add: decode_text_def ssml_headers_plus_data_def bytes_find_def
        get_headers_and_data_def slice_to_def slice_from_def split_colon_def)

section \<open>Properties of the chunker\<close>

lemma rfind_found:
  assumes "rfind s sub \<noteq> - 1"
  shows "\<exists>i. rfind s sub = int i \<and> i \<le> length s \<and> prefix sub (drop i s)"
proof (cases "filter (\<lambda>i. prefix sub (drop i s)) (rev [0..<Suc (length s)])")
  case Nil
  then show ?thesis using assms by (simp add: rfind_def)
next
  case (Cons i rest)
  then have "i \<in> set (filter (\<lambda>i. prefix sub (drop i s)) (rev [0..<Suc (length s)]))"
    by simp
  then have "i \<le> length s" "prefix sub (drop i s)"
    by (auto simp del: upt_Suc)
  then show ?thesis using Cons by (auto simp: rfind_def)
qed

lemma rfind_nonempty_sub:
  assumes "rfind s sub \<noteq> - 1" and "sub \<noteq> []"
  shows "\<exists>i. rfind s sub = int i \<and> i < length s \<and> s ! i = hd sub"
proof -
  from rfind_found[OF assms(1)] obtain i where
    i: "rfind s sub = int i" "i \<le> length s" "prefix sub (drop i s)" by blast
  from assms(2) obtain c cs where sub: "sub = c # cs" by (cases sub) auto
  from i(3) sub obtain zs where z: "drop i s = c # zs"
    by (cases "drop i s") (auto simp: prefix_def)
  then have "i < length s"
    by (metis drop_all leI list.distinct(1))
  moreover have "s ! i = c"
    using z by (metis nth_via_drop)
  ultimately show ?thesis using i(1) sub by auto
qed

lemma term_fold_bounds:
  assumes "acc = - 1 \<or> (1 \<le> acc \<and> acc \<le> int (length l))"
    and "[] \<notin> set ts"
  shows "foldl (\<lambda>split_idx char. if rfind l char \<noteq> - 1 then max split_idx (rfind l char + 1)
                                  else split_idx) acc ts = - 1 \<or>
         (1 \<le> foldl (\<lambda>split_idx char. if rfind l char \<noteq> - 1 then max split_idx (rfind l char + 1)
                                  else split_idx) acc ts \<and>
          foldl (\<lambda>split_idx char. if rfind l char \<noteq> - 1 then max split_idx (rfind l char + 1)
                                  else split_idx) acc ts \<le> int (length l))"
  using assms
proof (induction ts arbitrary: acc)
  case Nil
  then show ?case by simp
next
  case (Cons t ts)
  let ?n = "if rfind l t \<noteq> - 1 then max acc (rfind l t + 1) else acc"
  have "?n = - 1 \<or> (1 \<le> ?n \<and> ?n \<le> int (length l))"
  proof (cases "rfind l t = - 1")
    case True
    then show ?thesis using Cons.prems(1) by simp
  next
    case False
    from Cons.prems(2) have "t \<noteq> []" by auto
    from rfind_nonempty_sub[OF False this] obtain i where
      "rfind l t = int i" "i < length l" by blast
    then show ?thesis using Cons.prems(1) by auto
  qed
  then show ?case using Cons.IH[of ?n] Cons.prems(2) by simp
qed

lemma split_index_cases:
  assumes "length text > m"
  shows "(1 \<le> split_index text m \<and> split_index text m \<le> int m) \<or>
         (split_index text m = 0 \<and> is_space (hd text)) \<or> (split_index text m = 0 \<and> m = 0)"
proof -
  let ?l = "take m text"
  let ?a = "foldl (\<lambda>split_idx char. if rfind ?l char \<noteq> - 1
                     then max split_idx (rfind ?l char + 1) else split_idx) (- 1) terminators"
  have len: "length ?l = m" using assms by simp
  have a: "?a = - 1 \<or> (1 \<le> ?a \<and> ?a \<le> int m)"
    using term_fold_bounds[of "- 1" ?l terminators] len by (simp add: terminators_def)
  have single: "\<And>c. is_space c \<Longrightarrow> rfind ?l [c] \<noteq> - 1 \<Longrightarrow>
      (1 \<le> rfind ?l [c] \<and> rfind ?l [c] \<le> int m) \<or> (rfind ?l [c] = 0 \<and> is_space (hd text))"
  proof -
    fix c assume sp: "is_space c" and f: "rfind ?l [c] \<noteq> - 1"
    from rfind_nonempty_sub[OF f] obtain i where
      i: "rfind ?l [c] = int i" "i < length ?l" "?l ! i = c" by auto
    show "(1 \<le> rfind ?l [c] \<and> rfind ?l [c] \<le> int m) \<or> (rfind ?l [c] = 0 \<and> is_space (hd text))"
    proof (cases i)
      case 0
      then have "hd text = c" using i len assms
        by (cases "text") auto
      then show ?thesis using 0 i sp by simp
    next
      case (Suc k)
      then show ?thesis using i len by simp
    qed
  qed
  have s10: "is_space 10" and s32: "is_space 32" by (simp_all add: is_space_def)
  show ?thesis
    unfolding split_index_def Let_def
    using a single[OF s10] single[OF s32] by (cases "m = 0") auto
qed


lemma length_strip: "length (strip s) \<le> length s"
proof -
  have "length (strip s) \<le> length (dropWhile is_space s)"
    unfolding strip_def using length_dropWhile_le[of is_space "rev (dropWhile is_space s)"] by simp
  also have "\<dots> \<le> length s" by (rule length_dropWhile_le)
  finally show ?thesis .
qed

lemma filter_dropWhile_not: "filter (\<lambda>c. \<not> P c) (dropWhile P xs) = filter (\<lambda>c. \<not> P c) xs"
  by (induction xs) auto

lemma filter_strip: "filter (\<lambda>c. \<not> is_space c) (strip s) = filter (\<lambda>c. \<not> is_space c) s"
proof -
  have "filter (\<lambda>c. \<not> is_space c) (strip s) =
        rev (filter (\<lambda>c. \<not> is_space c) (dropWhile is_space (rev (dropWhile is_space s))))"
    by (simp add: strip_def rev_filter)
  also have "\<dots> = rev (filter (\<lambda>c. \<not> is_space c) (rev (dropWhile is_space s)))"
    by (simp only: filter_dropWhile_not)
  also have "\<dots> = filter (\<lambda>c. \<not> is_space c) (dropWhile is_space s)"
    by (simp add: rev_filter)
  also have "\<dots> = filter (\<lambda>c. \<not> is_space c) s"
    by (rule filter_dropWhile_not)
  finally show ?thesis .
qed

lemma strip_leading_space: "s \<noteq> [] \<Longrightarrow> is_space (hd s) \<Longrightarrow> length (strip s) < length s"
proof -
  assume a: "s \<noteq> []" "is_space (hd s)"
  then obtain x xs where s: "s = x # xs" by (cases s) auto
  have "length (strip s) \<le> length (dropWhile is_space s)"
    unfolding strip_def using length_dropWhile_le[of is_space "rev (dropWhile is_space s)"] by simp
  also have "\<dots> = length (dropWhile is_space xs)" using a s by simp
  also have "\<dots> \<le> length xs" by (rule length_dropWhile_le)
  finally show ?thesis using s by simp
qed

lemma strip_Cons_keep:
  "\<not> is_space x \<Longrightarrow> strip (x # xs) = x # rev (dropWhile is_space (rev xs))"
  by (simp add: strip_def dropWhile_append)

lemma strip_no_lead: "strip s = [] \<or> \<not> is_space (hd (strip s))"
proof (cases "dropWhile is_space s")
  case Nil
  show ?thesis unfolding strip_def Nil by simp
next
  case (Cons x xs)
  then have nx: "\<not> is_space x"
    by (metis hd_dropWhile list.distinct(1) list.sel(1))
  have "strip s = strip (x # xs)"
    unfolding strip_def Cons using nx by simp
  then show ?thesis using nx by (simp add: strip_Cons_keep)
qed

lemma strip_keeps_head: "s \<noteq> [] \<Longrightarrow> \<not> is_space (hd s) \<Longrightarrow> strip s \<noteq> []"
  by (cases s) (auto simp: strip_Cons_keep)


lemma chunk_loop_props:
  assumes "0 < m"
  shows "\<exists>new. chunk_loop m tx chunks = Some (chunks @ new) \<and>
           (\<forall>c\<in>set new. length c \<le> m) \<and>
           filter (\<lambda>c. \<not> is_space c) (concat new) = filter (\<lambda>c. \<not> is_space c) tx \<and>
           (tx = [] \<or> \<not> is_space (hd tx) \<longrightarrow> [] \<notin> set new)"
proof (induction "length tx" arbitrary: tx chunks rule: less_induct)
  case less
  show ?case
  proof (cases "length tx > m")
    case False
    then have "chunk_loop m tx chunks = Some (chunks @ (if tx \<noteq> [] then [tx] else []))"
      by (subst chunk_loop.simps) simp
    then show ?thesis using False by (intro exI[of _ "if tx \<noteq> [] then [tx] else []"]) auto
  next
    case True
    let ?si = "split_index tx m"
    let ?k = "nat ?si"
    let ?chunk = "strip (take ?k tx)"
    let ?rest = "strip (drop ?k tx)"
    have ne: "tx \<noteq> []" using True by auto
    have cases: "(1 \<le> ?si \<and> ?si \<le> int m) \<or> (?si = 0 \<and> is_space (hd tx))"
      using split_index_cases[OF True] assms by auto
    then have nonneg: "0 \<le> ?si" and le: "?k \<le> m" by auto
    have sl: "slice_to tx ?si = take ?k tx" "slice_from tx ?si = drop ?k tx"
      using nonneg by (simp_all add: slice_to_def slice_from_def)
    have shorter: "length ?rest < length tx"
    proof (cases "?si = 0")
      case True
      then show ?thesis using cases ne strip_leading_space[of tx] by simp
    next
      case False
      then have "0 < ?k" using nonneg by simp
      then have "length (drop ?k tx) < length tx" using ne by simp
      then show ?thesis using length_strip[of "drop ?k tx"] by simp
    qed
    from less[OF shorter, of "chunks @ [?chunk]"] obtain new where
      n: "chunk_loop m ?rest (chunks @ [?chunk]) = Some ((chunks @ [?chunk]) @ new)"
         "\<forall>c\<in>set new. length c \<le> m"
         "filter (\<lambda>c. \<not> is_space c) (concat new) = filter (\<lambda>c. \<not> is_space c) ?rest"
         "?rest = [] \<or> \<not> is_space (hd ?rest) \<longrightarrow> [] \<notin> set new"
      by blast
    have step: "chunk_loop m tx chunks = chunk_loop m ?rest (chunks @ [?chunk])"
      using True by (subst chunk_loop.simps) (simp add: sl)
    have len: "length ?chunk \<le> m"
      using length_strip[of "take ?k tx"] le by simp
    have flt: "filter (\<lambda>c. \<not> is_space c) (concat (?chunk # new)) = filter (\<lambda>c. \<not> is_space c) tx"
    proof -
      have "filter (\<lambda>c. \<not> is_space c) (concat (?chunk # new)) =
            filter (\<lambda>c. \<not> is_space c) (take ?k tx) @ filter (\<lambda>c. \<not> is_space c) (drop ?k tx)"
        using n(3) by (simp add: filter_strip)
      also have "\<dots> = filter (\<lambda>c. \<not> is_space c) (take ?k tx @ drop ?k tx)"
        by (simp only: filter_append)
      finally show ?thesis by simp
    qed
    have nonempty: "\<not> is_space (hd tx) \<Longrightarrow> [] \<notin> set (?chunk # new)"
    proof -
      assume h: "\<not> is_space (hd tx)"
      then have "0 < ?k" using cases by auto
      then have "take ?k tx \<noteq> []" "hd (take ?k tx) = hd tx"
        using ne by (cases tx; simp add: take_Cons')+
      then have "?chunk \<noteq> []" using h strip_keeps_head[of "take ?k tx"] by simp
      moreover have "[] \<notin> set new" using n(4) strip_no_lead[of "drop ?k tx"] by blast
      ultimately show ?thesis by auto
    qed
    show ?thesis
      using step n(1) n(2) len flt nonempty ne
      by (intro exI[of _ "?chunk # new"]) auto
  qed
qed

text \<open>
  What holds of the chunker for every text and every positive \<^verbatim>\<open>max_chars\<close>: it returns; no
  chunk is longer than \<^verbatim>\<open>max_chars\<close> (the hard cut is at \<^verbatim>\<open>max_chars\<close>, so not even an
  unbroken token makes a longer chunk); the chunks, in order, keep every character of the text
  that is not white space; and when the text is not empty and does not begin with white space,
  no chunk is empty.
\<close>

lemma chunk_text_total_and_bounded:
  assumes "0 < max_chars"
  shows "\<exists>chunks. chunk_text tx max_chars = Some chunks \<and>
           (\<forall>c\<in>set chunks. length c \<le> max_chars) \<and>
           filter (\<lambda>c. \<not> is_space c) (concat chunks) = filter (\<lambda>c. \<not> is_space c) tx \<and>
           (tx \<noteq> [] \<and> \<not> is_space (hd tx) \<longrightarrow> [] \<notin> set chunks)"
proof (cases "length tx \<le> max_chars")
  case True
  then show ?thesis by (auto simp: chunk_text_def)
next
  case False
  from chunk_loop_props[OF assms, of tx "[]"] obtain new where
    "chunk_loop max_chars tx [] = Some new"
    "\<forall>c\<in>set new. length c \<le> max_chars"
    "filter (\<lambda>c. \<not> is_space c) (concat new) = filter (\<lambda>c. \<not> is_space c) tx"
    "tx = [] \<or> \<not> is_space (hd tx) \<longrightarrow> [] \<notin> set new"
    by auto
  then show ?thesis using False by (auto simp: chunk_text_def)
qed

lemma split_index_leading_space: "split_index [32, 97, 97, 97, 97, 97, 97] 4 = 0"
  by (simp add: split_index_def rfind_def terminators_def)

lemma split_index_no_boundary: "split_index [97, 97, 97, 97, 97, 97] 4 = 4"
  by (simp add: split_index_def rfind_def terminators_def)

lemma chunk_loop_tail: "chunk_loop 4 [97, 97] cs = Some (cs @ [[97, 97]])"
  by (subst chunk_loop.simps) simp

lemma chunk_loop_token:
  "chunk_loop 4 [97, 97, 97, 97, 97, 97] cs = Some (cs @ [[97, 97, 97, 97], [97, 97]])"
  by (subst chunk_loop.simps)
     (simp add: split_index_no_boundary chunk_loop_tail slice_to_def slice_from_def strip_def
        is_space_def)

text \<open>
  Claim C3 says that no chunk is the empty string, for every text and every positive
  \<^verbatim>\<open>max_chars\<close>. The text \<^verbatim>\<open>" aaaaaa"\<close> with \<^verbatim>\<open>max_chars = 4\<close> has its only boundary, the
  space, at index 0 of the window: the loop appends the stripped empty prefix as a chunk, and
  the chunks are the empty string, \<^verbatim>\<open>"aaaa"\<close> and \<^verbatim>\<open>"aa"\<close>.
\<close>

theorem leading_space_gives_empty_chunk:
  "chunk_text [32, 97, 97, 97, 97, 97, 97] 4 = Some [[], [97, 97, 97, 97], [97, 97]]"
  unfolding chunk_text_def
  by (subst chunk_loop.simps)
     (simp add: split_index_leading_space chunk_loop_token slice_to_def slice_from_def strip_def
        is_space_def)

text \<open>The empty text, which the caller never passes, comes back as one empty chunk.\<close>

lemma empty_text_gives_empty_chunk: "chunk_text [] 4 = Some [[]]"
  by (simp add: chunk_text_def)

section \<open>Properties of the streaming session\<close>

lemmas fixture_defs = audio_frame_def turn_end_def get_headers_and_data_def from_bytes_big_def
  slice_to_def slice_from_def split_colon_def bytes_find_def run_stream_def

lemma run_stream_audio_turn_end [simp]:
  "run_stream (Opened [audio_frame ''AB'', turn_end] None) = ([''AB''], None)"
  by (simp add: fixture_defs)

text \<open>The flag is set exactly when a buffer is yielded.\<close>

lemma frame_loop_flag:
  "frame_loop msgs closing flag = (ys, r, flag') \<Longrightarrow> flag' = (flag \<or> ys \<noteq> [])"
proof (induction msgs arbitrary: flag ys r flag')
  case Nil
  then show ?case by simp
next
  case (Cons m msgs)
  show ?case
  proof (cases m)
    case (TEXT x1)
    then show ?thesis using Cons.prems Cons.IH
      by (auto split: sum.splits if_splits prod.splits)
  next
    case (BINARY b)
    then show ?thesis using Cons.prems Cons.IH
      by (fastforce simp: Let_def split: sum.splits if_splits prod.splits)
  next
    case (ERROR x3)
    then show ?thesis using Cons.prems by auto
  next
    case OTHER
    then show ?thesis using Cons.prems Cons.IH by auto
  qed
qed

text \<open>
  Claim C8. An inbound binary message that is shorter than two bytes, or whose two-byte big-endian
  header length exceeds the length of the whole message, is passed over: the loop goes on with
  the remaining messages exactly as if the message had not arrived, and so does the session.
\<close>

theorem binary_frame_tolerance:
  assumes "length b < 2 \<or> from_bytes_big (take 2 b) > length b"
  shows "frame_loop (BINARY b # rest) closing flag = frame_loop rest closing flag \<and>
         run_stream (Opened (BINARY b # rest) closing) = run_stream (Opened rest closing)"
  using assms by (auto simp: run_stream_def Let_def)

theorem binary_frame_tolerance_witness:
  "(length [CHR 0xFF, CHR 0xFF, CHR ''a''] < 2 \<or>
      from_bytes_big (take 2 [CHR 0xFF, CHR 0xFF, CHR ''a'']) >
        length [CHR 0xFF, CHR 0xFF, CHR ''a'']) \<and>
   run_stream (Opened [BINARY [CHR 0xFF, CHR 0xFF, CHR ''a''], audio_frame ''AB'', turn_end] None) =
     ([''AB''], None)"
proof -
  have h: "length [CHR 0xFF, CHR 0xFF, CHR ''a''] < 2 \<or>
      from_bytes_big (take 2 [CHR 0xFF, CHR 0xFF, CHR ''a'']) >
        length [CHR 0xFF, CHR 0xFF, CHR ''a'']"
    by (simp add: from_bytes_big_def)
  show ?thesis
    using h binary_frame_tolerance[OF h, of "[audio_frame ''AB'', turn_end]" None False]
    by simp
qed

text \<open>
  Claim C6. When the frame loop of a session ends without raising (a \<^verbatim>\<open>turn.end\<close> text frame,
  or the connection closed) and has yielded no audio buffer, the session raises
  \<^verbatim>\<open>NoAudioReceived\<close>, and so does \<^verbatim>\<open>stream\<close> on a fresh instance; that exception is none
  of the WebSocket or HTTP response errors.
\<close>

theorem no_audio_detection:
  assumes "frame_loop msgs closing False = ([], None, flag)"
    and "network E (connections w) = Opened msgs closing"
    and "\<not> stream_was_called s"
  shows "run_stream (Opened msgs closing) = ([], Some NoAudioReceived) \<and>
         fst (stream E s w) = ([], Some NoAudioReceived) \<and>
         (\<forall>d. NoAudioReceived \<noteq> WebSocketError d) \<and>
         (\<forall>st. NoAudioReceived \<noteq> ClientResponseError st)"
proof -
  have "flag = False"
    using frame_loop_flag[OF assms(1)] by simp
  then have r: "run_stream (Opened msgs closing) = ([], Some NoAudioReceived)"
    using assms(1) by (simp add: run_stream_def)
  then show ?thesis
    using assms(2,3) by (simp add: stream_def private_stream_def Let_def)
qed

theorem no_audio_detection_witness:
  "frame_loop [turn_end] None False = ([], None, False) \<and>
   network (fake_env (\<lambda>n. Opened [turn_end] None)) (connections empty_world) =
     Opened [turn_end] None \<and>
   \<not> stream_was_called new_session \<and>
   fst (stream (fake_env (\<lambda>n. Opened [turn_end] None)) new_session empty_world) =
     ([], Some NoAudioReceived)"
proof -
  have h: "frame_loop [turn_end] None False = ([], None, False)"
    by (simp add: fixture_defs)
  have n: "network (fake_env (\<lambda>n. Opened [turn_end] None)) (connections empty_world) =
     Opened [turn_end] None"
    by (simp add: fake_env_def)
  have f: "\<not> stream_was_called new_session"
    by (simp add: new_session_def)
  show ?thesis
    using h n f no_audio_detection[OF h n f] by simp
qed

lemma stream_sets_flag: "stream E s w = (r, s1, w1) \<Longrightarrow> stream_was_called s1"
  by (auto simp: stream_def Let_def split: if_splits prod.splits option.splits exn.splits)

text \<open>
  Claim C9. Whatever a first call of \<^verbatim>\<open>stream\<close> on an instance did, a second call on the same
  instance raises the usage error, yields nothing and leaves the world as it was: no connection
  is opened.
\<close>

theorem stream_single_use:
  assumes "stream E s w = (r, s1, w1)"
  shows "stream E s1 w1 = (([], Some (RuntimeError StreamOnce None)), s1, w1)"
  using stream_sets_flag[OF assms] by (simp add: stream_def)

theorem stream_single_use_witness:
  "stream (fake_env (\<lambda>n. Opened [audio_frame ''AB'', turn_end] None)) new_session empty_world =
     (([''AB''], None), \<lparr>stream_was_called = True\<rparr>, empty_world\<lparr>connections := 1\<rparr>) \<and>
   stream (fake_env (\<lambda>n. Opened [audio_frame ''AB'', turn_end] None))
      \<lparr>stream_was_called = True\<rparr> (empty_world\<lparr>connections := 1\<rparr>) =
     (([], Some (RuntimeError StreamOnce None)), \<lparr>stream_was_called = True\<rparr>,
      empty_world\<lparr>connections := 1\<rparr>)"
proof -
  have h: "stream (fake_env (\<lambda>n. Opened [audio_frame ''AB'', turn_end] None))
             new_session empty_world =
     (([''AB''], None), \<lparr>stream_was_called = True\<rparr>, empty_world\<lparr>connections := 1\<rparr>)"
    by (simp add: stream_def private_stream_def fake_env_def new_session_def empty_world_def)
  show ?thesis
    using h stream_single_use[OF h] by simp
qed

text \<open>
  Claim C5, as amended. On a fresh instance whose connection attempt is refused with an HTTP
  response error: with status 403 and a token-refresh handler that returns, the session is run
  once more and its result is the result of \<^verbatim>\<open>stream\<close>, after two connection attempts and
  one handler call in all; when that second attempt is refused with 403 too, the 403 is the
  result, still after two attempts; with status 403 and a handler that raises, the handler's
  error is the result after the one attempt, with no retry; with any other status the error is
  the result after the one attempt, with no handler call.
\<close>

theorem auth_refresh_once:
  assumes "\<not> stream_was_called s"
    and "network E (connections w) = Refused (ClientResponseError status)"
  shows "(status = 403 \<and> handle_client_response_error E (refreshes w) = None \<longrightarrow>
            fst (stream E s w) = run_stream (network E (Suc (connections w))) \<and>
            connections (snd (snd (stream E s w))) = connections w + 2 \<and>
            refreshes (snd (snd (stream E s w))) = refreshes w + 1) \<and>
         (status = 403 \<and> handle_client_response_error E (refreshes w) = None \<and>
            network E (Suc (connections w)) = Refused (ClientResponseError 403) \<longrightarrow>
            fst (stream E s w) = ([], Some (ClientResponseError 403)) \<and>
            connections (snd (snd (stream E s w))) = connections w + 2 \<and>
            refreshes (snd (snd (stream E s w))) = refreshes w + 1) \<and>
         (\<forall>e. status = 403 \<and> handle_client_response_error E (refreshes w) = Some e \<longrightarrow>
            fst (stream E s w) = ([], Some e) \<and>
            connections (snd (snd (stream E s w))) = connections w + 1) \<and>
         (status \<noteq> 403 \<longrightarrow>
            fst (stream E s w) = ([], Some (ClientResponseError status)) \<and>
            connections (snd (snd (stream E s w))) = connections w + 1 \<and>
            refreshes (snd (snd (stream E s w))) = refreshes w)"
  using assms
  by (auto simp: stream_def private_stream_def run_stream_def Let_def split: prod.splits)

theorem auth_refresh_once_witness:
  "\<not> stream_was_called new_session \<and>
   network (fake_env refused_once) (connections empty_world) = Refused (ClientResponseError 403) \<and>
   handle_client_response_error (fake_env refused_once) (refreshes empty_world) = None \<and>
   fst (stream (fake_env refused_once) new_session empty_world) = ([''AB''], None) \<and>
   connections (snd (snd (stream (fake_env refused_once) new_session empty_world))) = 2 \<and>
   network (fake_env refused_twice) (Suc (connections empty_world)) =
     Refused (ClientResponseError 403) \<and>
   fst (stream (fake_env refused_twice) new_session empty_world) =
     ([], Some (ClientResponseError 403)) \<and>
   connections (snd (snd (stream (fake_env refused_twice) new_session empty_world))) = 2 \<and>
   network (fake_env refused_500) (connections empty_world) = Refused (ClientResponseError 500) \<and>
   fst (stream (fake_env refused_500) new_session empty_world) =
     ([], Some (ClientResponseError 500)) \<and>
   connections (snd (snd (stream (fake_env refused_500) new_session empty_world))) = 1 \<and>
   handle_client_response_error (raising_handler (fake_env refused_once)) (refreshes empty_world) =
     Some (OtherError ''SkewAdjustmentError'') \<and>
   fst (stream (raising_handler (fake_env refused_once)) new_session empty_world) =
     ([], Some (OtherError ''SkewAdjustmentError''))"
proof -
  have f: "\<not> stream_was_called new_session"
    by (simp add: new_session_def)
  have a: "network (fake_env refused_once) (connections empty_world) =
             Refused (ClientResponseError 403)"
    by (simp add: fake_env_def refused_once_def empty_world_def)
  have b: "network (fake_env refused_twice) (connections empty_world) =
             Refused (ClientResponseError 403)"
    by (simp add: fake_env_def refused_twice_def empty_world_def)
  have c: "network (fake_env refused_500) (connections empty_world) =
             Refused (ClientResponseError 500)"
    by (simp add: fake_env_def refused_500_def empty_world_def)
  have a1: "run_stream (network (fake_env refused_once) (Suc (connections empty_world))) =
              ([''AB''], None)"
    by (simp add: fake_env_def refused_once_def empty_world_def)
  have b1: "network (fake_env refused_twice) (Suc (connections empty_world)) =
              Refused (ClientResponseError 403)"
    by (simp add: fake_env_def refused_twice_def empty_world_def)
  have ha: "handle_client_response_error (fake_env refused_once) (refreshes empty_world) = None"
    by (simp add: fake_env_def)
  have hb: "handle_client_response_error (fake_env refused_twice) (refreshes empty_world) = None"
    by (simp add: fake_env_def)
  have w0: "connections empty_world = 0"
    by (simp add: empty_world_def)
  have r1: "fst (stream (fake_env refused_once) new_session empty_world) = ([''AB''], None) \<and>
            connections (snd (snd (stream (fake_env refused_once) new_session empty_world))) = 2"
    using auth_refresh_once[OF f a] ha a1 w0 by simp
  have r2: "fst (stream (fake_env refused_twice) new_session empty_world) =
              ([], Some (ClientResponseError 403)) \<and>
            connections (snd (snd (stream (fake_env refused_twice) new_session empty_world))) = 2"
    using auth_refresh_once[OF f b] hb b1 w0 by (simp add: run_stream_def)
  have r3: "fst (stream (fake_env refused_500) new_session empty_world) =
              ([], Some (ClientResponseError 500)) \<and>
            connections (snd (snd (stream (fake_env refused_500) new_session empty_world))) = 1"
    using auth_refresh_once[OF f c] w0 by simp
  have d: "network (raising_handler (fake_env refused_once)) (connections empty_world) =
             Refused (ClientResponseError 403)"
    by (simp add: raising_handler_def fake_env_def refused_once_def empty_world_def)
  have hd: "handle_client_response_error (raising_handler (fake_env refused_once))
              (refreshes empty_world) = Some (OtherError ''SkewAdjustmentError'')"
    by (simp add: raising_handler_def)
  have r4: "fst (stream (raising_handler (fake_env refused_once)) new_session empty_world) =
              ([], Some (OtherError ''SkewAdjustmentError''))"
    using auth_refresh_once[OF f d] hd by simp
  show ?thesis
    using f a ha r1 b1 r2 c r3 hd r4 by blast
qed

text \<open>
  The claim as it was written promises the one retry on every 403. When the token-refresh
  handler raises, as it does on a response without a server date, the session makes its one
  connection attempt and no other.
\<close>

theorem refresh_raises_counterexample:
  "\<not> stream_was_called new_session \<and>
   network (raising_handler (fake_env refused_once)) (connections empty_world) =
     Refused (ClientResponseError 403) \<and>
   fst (stream (raising_handler (fake_env refused_once)) new_session empty_world) =
     ([], Some (OtherError ''SkewAdjustmentError'')) \<and>
   connections (snd (snd (stream (raising_handler (fake_env refused_once)) new_session
     empty_world))) = 1"
  by (simp add: stream_def private_stream_def run_stream_def raising_handler_def fake_env_def
        refused_once_def new_session_def empty_world_def)

text \<open>
  Claim C10, as amended. When the first run of the frame loop has yielded buffers and then raises
  an HTTP 403 error: if the token-refresh handler returns, \<^verbatim>\<open>stream\<close> runs the loop again
  from the start, the caller receives the buffers of the first run followed by everything the
  second run yields, and \<^verbatim>\<open>save\<close> writes both into the destination file; if the handler
  raises, \<^verbatim>\<open>stream\<close> does not run the loop again, the caller receives the buffers of the
  first run and then the handler's error, and the file holds the buffers of the first run.
\<close>

theorem partial_output_then_403:
  assumes "\<not> stream_was_called s"
    and "run_stream (network E (connections w)) = (first, Some (ClientResponseError 403))"
    and "first \<noteq> []"
    and "writable E audio_fname"
  shows "(\<forall>second outcome.
            handle_client_response_error E (refreshes w) = None \<and>
            run_stream (network E (Suc (connections w))) = (second, outcome) \<longrightarrow>
            fst (stream E s w) = (first @ second, outcome) \<and>
            fst (save E audio_fname s w) = outcome \<and>
            files (snd (snd (save E audio_fname s w))) audio_fname =
              Some (concat first @ concat second)) \<and>
         (\<forall>e. handle_client_response_error E (refreshes w) = Some e \<longrightarrow>
            fst (stream E s w) = (first, Some e) \<and>
            connections (snd (snd (stream E s w))) = connections w + 1 \<and>
            fst (save E audio_fname s w) = Some e \<and>
            files (snd (snd (save E audio_fname s w))) audio_fname = Some (concat first))"
  using assms
  by (auto simp: save_def stream_def private_stream_def Let_def split: prod.splits)

theorem partial_output_then_403_witness:
  "\<not> stream_was_called new_session \<and>
   run_stream (network (fake_env cut_by_403) (connections empty_world)) =
     ([''AB''], Some (ClientResponseError 403)) \<and>
   [''AB''] \<noteq> [] \<and>
   handle_client_response_error (fake_env cut_by_403) (refreshes empty_world) = None \<and>
   run_stream (network (fake_env cut_by_403) (Suc (connections empty_world))) =
     ([''AB'', ''CD''], None) \<and>
   writable (fake_env cut_by_403) ''out.mp3'' \<and>
   fst (stream (fake_env cut_by_403) new_session empty_world) = ([''AB'', ''AB'', ''CD''], None) \<and>
   files (snd (snd (save (fake_env cut_by_403) ''out.mp3'' new_session empty_world))) ''out.mp3'' =
     Some ''ABABCD''"
proof -
  have f: "\<not> stream_was_called new_session"
    by (simp add: new_session_def)
  have a: "run_stream (network (fake_env cut_by_403) (connections empty_world)) =
     ([''AB''], Some (ClientResponseError 403))"
    by (simp add: fake_env_def cut_by_403_def empty_world_def fixture_defs)
  have n: "[''AB''] \<noteq> []"
    by simp
  have h: "handle_client_response_error (fake_env cut_by_403) (refreshes empty_world) = None"
    by (simp add: fake_env_def)
  have b: "run_stream (network (fake_env cut_by_403) (Suc (connections empty_world))) =
     ([''AB'', ''CD''], None)"
    by (simp add: fake_env_def cut_by_403_def empty_world_def fixture_defs)
  have wr: "writable (fake_env cut_by_403) ''out.mp3''"
    by (simp add: fake_env_def)
  have "fst (stream (fake_env cut_by_403) new_session empty_world) =
          ([''AB''] @ [''AB'', ''CD''], None) \<and>
        files (snd (snd (save (fake_env cut_by_403) ''out.mp3'' new_session empty_world)))
          ''out.mp3'' = Some (concat [''AB''] @ concat [''AB'', ''CD''])"
    using partial_output_then_403[OF f a n wr] h b by blast
  then show ?thesis
    using f a n h b wr by simp
qed

text \<open>
  The claim as it was written has the loop restarted after every such 403. When the
  token-refresh handler raises, there is no second run: the caller receives the one buffer and
  the handler's error, and the file holds that one buffer.
\<close>

theorem no_restart_counterexample:
  "\<not> stream_was_called new_session \<and>
   run_stream (network (raising_handler (fake_env cut_by_403)) (connections empty_world)) =
     ([''AB''], Some (ClientResponseError 403)) \<and>
   fst (stream (raising_handler (fake_env cut_by_403)) new_session empty_world) =
     ([''AB''], Some (OtherError ''SkewAdjustmentError'')) \<and>
   connections (snd (snd (stream (raising_handler (fake_env cut_by_403)) new_session
     empty_world))) = 1 \<and>
   files (snd (snd (save (raising_handler (fake_env cut_by_403)) ''out.mp3'' new_session
     empty_world))) ''out.mp3'' = Some ''AB''"
  by (simp add: save_def stream_def private_stream_def raising_handler_def fake_env_def
        cut_by_403_def new_session_def empty_world_def fixture_defs)

section \<open>Properties of the orchestrator\<close>

lemma retry_range: "[1..<3 + 1] = [1, 2, 3::nat]"
  by (simp add: upt_rec)

lemma generate_audio_unfold:
  "generate_audio synth w =
     (case retry_loop synth 3 [1, 2, 3] None w of
        (Inr nbytes, evs, w1) \<Rightarrow> (Inr nbytes, evs, w1)
      | (Inl last_error, evs, w1) \<Rightarrow>
          (case last_error of
             Some NoAudioReceived \<Rightarrow>
               (Inl (RuntimeError (NoDataAfter 3 likely_causes) (Some NoAudioReceived)),
                evs, w1)
           | Some e \<Rightarrow> (Inl e, evs, w1)
           | None \<Rightarrow> (Inl TypeError, evs, w1)))"
  unfolding generate_audio_def Let_def retry_range ..

text \<open>
  Claim C1, as amended. When synthesis fails on the SilenceTagged tier and on the BreakTagged
  tier and succeeds on the PlainOrRawText tier, the orchestrator makes exactly three attempts, one
  per tier in that order, all in its first round, without sleeping, and returns the size that
  the third attempt returned.
\<close>

theorem fallback_order:
  assumes "synth SilenceTagged w = (Inl e1, w1)"
    and "synth BreakTagged w1 = (Inl e2, w2)"
    and "synth PlainOrRawText w2 = (Inr nbytes, w3)"
  shows "generate_audio synth w =
           (Inr nbytes, [Attempt SilenceTagged, Attempt BreakTagged, Attempt PlainOrRawText], w3)"
  using assms by (simp add: generate_audio_unfold attempt_generate_audio_def)

theorem fallback_order_witness:
  "fails_twice SilenceTagged () = (Inl NoAudioReceived, ()) \<and>
   fails_twice BreakTagged () = (Inl NoAudioReceived, ()) \<and>
   fails_twice PlainOrRawText () = (Inr 4096, ()) \<and>
   generate_audio fails_twice () =
     (Inr 4096, [Attempt SilenceTagged, Attempt BreakTagged, Attempt PlainOrRawText], ())"
proof -
  have a: "fails_twice SilenceTagged () = (Inl NoAudioReceived, ())"
   and b: "fails_twice BreakTagged () = (Inl NoAudioReceived, ())"
   and c: "fails_twice PlainOrRawText () = (Inr 4096, ())"
    by (simp_all add: fails_twice_def)
  show ?thesis
    using a b c fallback_order[where synth = fails_twice and w = "()", OF a b c] by simp
qed

text \<open>
  The claim as it was written asks for seven attempts, three on each of the first two tiers
  before the third tier is tried. On a fake session that fails the first two tiers and succeeds
  on the third, the attempts are not those.
\<close>

theorem seven_attempts_counterexample:
  "fails_twice SilenceTagged () = (Inl NoAudioReceived, ()) \<and>
   fails_twice BreakTagged () = (Inl NoAudioReceived, ()) \<and>
   fails_twice PlainOrRawText () = (Inr 4096, ()) \<and>
   attempts (fst (snd (generate_audio fails_twice ()))) \<noteq>
     [SilenceTagged, SilenceTagged, SilenceTagged, BreakTagged, BreakTagged, BreakTagged,
      PlainOrRawText] \<and>
   length (attempts (fst (snd (generate_audio fails_twice ())))) \<noteq> 7"
  by (simp add: generate_audio_unfold attempt_generate_audio_def fails_twice_def attempts_def)

lemma attempt_failed:
  "attempt_generate_audio synth w = (Inl e, evs, w1) \<Longrightarrow>
   evs = [Attempt SilenceTagged, Attempt BreakTagged, Attempt PlainOrRawText]"
  by (auto simp: attempt_generate_audio_def split: prod.splits sum.splits)

lemma retry_loop_last:
  "retry_loop synth m atts prev w = (Inl le, evs, w1) \<Longrightarrow> atts \<noteq> [] \<or> prev \<noteq> None \<Longrightarrow>
   le \<noteq> None"
proof (induction atts arbitrary: prev w evs w1)
  case Nil
  then show ?case by simp
next
  case (Cons a atts)
  obtain r evs1 wa where a: "attempt_generate_audio synth w = (r, evs1, wa)"
    by (cases "attempt_generate_audio synth w") auto
  show ?case
  proof (cases r)
    case (Inl e)
    obtain r2 evs2 wb where b: "retry_loop synth m atts (Some e) wa = (r2, evs2, wb)"
      by (cases "retry_loop synth m atts (Some e) wa") auto
    have "r2 = Inl le"
      using Cons.prems(1) a Inl b by simp
    then show ?thesis
      using Cons.IH[of "Some e" wa evs2 wb] b by simp
  next
    case (Inr n)
    then show ?thesis
      using Cons.prems(1) a by simp
  qed
qed

text \<open>
  When every round fails, the rounds are three, each goes through the three tiers, and the
  sleeps between them are of one and of two seconds.
\<close>

lemma retry_loop_exhausted_events:
  "retry_loop synth 3 [1, 2, 3] None w = (Inl le, evs, w1) \<Longrightarrow>
   evs = [Attempt SilenceTagged, Attempt BreakTagged, Attempt PlainOrRawText, Sleep 1,
          Attempt SilenceTagged, Attempt BreakTagged, Attempt PlainOrRawText, Sleep 2,
          Attempt SilenceTagged, Attempt BreakTagged, Attempt PlainOrRawText]"
  by (auto split: prod.splits sum.splits dest!: attempt_failed)

text \<open>
  A failed round went through the three tiers, and its error is the error of the last tier.
\<close>

lemma attempt_error_is_last_tier:
  assumes "attempt_generate_audio synth w = (Inl e, evs, w')"
  shows "\<exists>x v1 y v2. synth SilenceTagged w = (Inl x, v1) \<and> synth BreakTagged v1 = (Inl y, v2) \<and>
           synth PlainOrRawText v2 = (Inl e, w')"
  using assms
  by (auto simp: attempt_generate_audio_def split: prod.splits sum.splits)

lemma attempt_unfold_failed:
  assumes "synth SilenceTagged w = (Inl x, v1)"
    and "synth BreakTagged v1 = (Inl y, v2)"
    and "synth PlainOrRawText v2 = (Inl e, w')"
  shows "attempt_generate_audio synth w =
           (Inl e, [Attempt SilenceTagged, Attempt BreakTagged, Attempt PlainOrRawText], w')"
  using assms by (simp add: attempt_generate_audio_def)

text \<open>The orchestrator raises exactly when three rounds in a row have failed.\<close>

lemma generate_audio_raises:
  assumes "generate_audio synth w = (Inl err, evs, w3)"
  shows "\<exists>e1 evs1 w1 e2 evs2 w2 e3 evs3.
           attempt_generate_audio synth w = (Inl e1, evs1, w1) \<and>
           attempt_generate_audio synth w1 = (Inl e2, evs2, w2) \<and>
           attempt_generate_audio synth w2 = (Inl e3, evs3, w3)"
  using assms
  by (auto simp: generate_audio_unfold split: prod.splits sum.splits option.splits exn.splits)

text \<open>
  Claim C7, as amended. When all tiers and all retries are exhausted, that is, when the first
  and the second round fail and the third round fails on its three tiers, the last underlying
  error is the error of the last tier in the third round, whatever the earlier errors were. If
  it is \<^verbatim>\<open>NoAudioReceived\<close>, the orchestrator raises the user-facing error that lists the
  likely causes (network or proxy, invalid characters or length, service outage) and has that
  last error as its cause; if it is of any other kind, the orchestrator raises that error
  itself.
\<close>

theorem exhausted_error:
  assumes r1: "attempt_generate_audio synth w = (Inl e1, evs1, w1)"
    and r2: "attempt_generate_audio synth w1 = (Inl e2, evs2, w2)"
    and s1: "synth SilenceTagged w2 = (Inl x, v1)"
    and s2: "synth BreakTagged v1 = (Inl y, v2)"
    and s3: "synth PlainOrRawText v2 = (Inl e3, w3)"
  shows "generate_audio synth w =
           (Inl (if e3 = NoAudioReceived
                 then RuntimeError (NoDataAfter 3 likely_causes) (Some e3) else e3),
            [Attempt SilenceTagged, Attempt BreakTagged, Attempt PlainOrRawText, Sleep 1,
             Attempt SilenceTagged, Attempt BreakTagged, Attempt PlainOrRawText, Sleep 2,
             Attempt SilenceTagged, Attempt BreakTagged, Attempt PlainOrRawText], w3)"
proof -
  have r3: "attempt_generate_audio synth w2 =
           (Inl e3, [Attempt SilenceTagged, Attempt BreakTagged, Attempt PlainOrRawText], w3)"
    using attempt_unfold_failed[OF s1 s2 s3] .
  have ev: "evs1 = [Attempt SilenceTagged, Attempt BreakTagged, Attempt PlainOrRawText]"
           "evs2 = [Attempt SilenceTagged, Attempt BreakTagged, Attempt PlainOrRawText]"
    using attempt_failed[OF r1] attempt_failed[OF r2] by simp_all
  show ?thesis
    using r1 r2 r3 ev by (cases e3) (simp_all add: generate_audio_unfold)
qed

text \<open>
  A session that times out in its first round and gets no audio afterwards: the error raised is
  built on the last error, not on the first.
\<close>

theorem exhausted_error_witness:
  "attempt_generate_audio timeout_then_silence 0 =
     (Inl (OtherError ''timeout''),
      [Attempt SilenceTagged, Attempt BreakTagged, Attempt PlainOrRawText], 3) \<and>
   attempt_generate_audio timeout_then_silence 3 =
     (Inl NoAudioReceived,
      [Attempt SilenceTagged, Attempt BreakTagged, Attempt PlainOrRawText], 6) \<and>
   timeout_then_silence SilenceTagged 6 = (Inl NoAudioReceived, 7) \<and>
   timeout_then_silence BreakTagged 7 = (Inl NoAudioReceived, 8) \<and>
   timeout_then_silence PlainOrRawText 8 = (Inl NoAudioReceived, 9) \<and>
   generate_audio timeout_then_silence 0 =
     (Inl (RuntimeError (NoDataAfter 3 likely_causes) (Some NoAudioReceived)),
      [Attempt SilenceTagged, Attempt BreakTagged, Attempt PlainOrRawText, Sleep 1,
       Attempt SilenceTagged, Attempt BreakTagged, Attempt PlainOrRawText, Sleep 2,
       Attempt SilenceTagged, Attempt BreakTagged, Attempt PlainOrRawText], 9)"
proof -
  have r1: "attempt_generate_audio timeout_then_silence 0 =
     (Inl (OtherError ''timeout''),
      [Attempt SilenceTagged, Attempt BreakTagged, Attempt PlainOrRawText], 3)"
    by (simp add: attempt_generate_audio_def timeout_then_silence_def eval_nat_numeral)
  have r2: "attempt_generate_audio timeout_then_silence 3 =
     (Inl NoAudioReceived,
      [Attempt SilenceTagged, Attempt BreakTagged, Attempt PlainOrRawText], 6)"
    by (simp add: attempt_generate_audio_def timeout_then_silence_def eval_nat_numeral)
  have s1: "timeout_then_silence SilenceTagged 6 = (Inl NoAudioReceived, 7)"
   and s2: "timeout_then_silence BreakTagged 7 = (Inl NoAudioReceived, 8)"
   and s3: "timeout_then_silence PlainOrRawText 8 = (Inl NoAudioReceived, 9)"
    by (simp_all add: timeout_then_silence_def)
  show ?thesis
    using r1 r2 s1 s2 s3 exhausted_error[OF r1 r2 s1 s2 s3] by simp
qed

text \<open>
  The other way round, a session that gets no audio until a timeout on the last tier of the
  third round makes the orchestrator raise the timeout.
\<close>

lemma last_error_decides:
  "fst (generate_audio silence_then_timeout 0) = Inl (OtherError ''timeout'')"
  by (simp add: generate_audio_unfold attempt_generate_audio_def silence_then_timeout_def
        eval_nat_numeral)

text \<open>
  The claim as it was written promises the user-facing error for every kind of last error. When
  the last error is a timeout of the third tier, the orchestrator raises the timeout.
\<close>

theorem cause_list_counterexample:
  "fst (generate_audio (always_fails (OtherError ''timeout'')) ()) =
     Inl (OtherError ''timeout'') \<and>
   fst (generate_audio (always_fails (OtherError ''timeout'')) ()) \<noteq>
     Inl (RuntimeError (NoDataAfter 3 likely_causes) (Some (OtherError ''timeout'')))"
  by (simp add: generate_audio_unfold attempt_generate_audio_def always_fails_def)

section \<open>Properties of the synthesis to a file\<close>

lemma frame_loop_nonempty:
  "frame_loop msgs closing flag = (ys, r, flag') \<Longrightarrow> [] \<notin> set ys"
proof (induction msgs arbitrary: flag ys r flag')
  case Nil
  then show ?case by simp
next
  case (Cons m msgs)
  show ?case
  proof (cases m)
    case (TEXT x1)
    then show ?thesis using Cons.prems Cons.IH
      by (auto split: sum.splits if_splits prod.splits)
  next
    case (BINARY b)
    then show ?thesis using Cons.prems Cons.IH
      by (fastforce simp: Let_def split: sum.splits if_splits prod.splits)
  next
    case (ERROR x3)
    then show ?thesis using Cons.prems by auto
  next
    case OTHER
    then show ?thesis using Cons.prems Cons.IH by auto
  qed
qed

lemma concat_nonempty: "ys \<noteq> [] \<Longrightarrow> [] \<notin> set ys \<Longrightarrow> concat ys \<noteq> []"
  by (cases ys) auto

lemma run_stream_ok: "run_stream c = (ys, None) \<Longrightarrow> concat ys \<noteq> []"
proof (cases c)
  case (Refused e)
  assume "run_stream c = (ys, None)"
  then show ?thesis using Refused by (simp add: run_stream_def)
next
  case (Opened msgs closing)
  assume a: "run_stream c = (ys, None)"
  obtain zs r f where fl: "frame_loop msgs closing False = (zs, r, f)"
    by (cases "frame_loop msgs closing False") auto
  from a Opened fl have "zs = ys" "r = None" "f"
    by (auto simp: run_stream_def split: option.splits if_splits)
  then have "ys \<noteq> []" "[] \<notin> set ys"
    using frame_loop_flag[OF fl] frame_loop_nonempty[OF fl] by simp_all
  then show ?thesis by (rule concat_nonempty)
qed

lemma private_stream_ok: "private_stream E w = ((ys, None), w1) \<Longrightarrow> concat ys \<noteq> []"
  by (auto simp: private_stream_def dest: run_stream_ok)

lemma stream_ok:
  assumes "stream E s w = ((ys, None), s1, w1)"
  shows "concat ys \<noteq> []"
proof -
  obtain first r wa where a: "private_stream E w = ((first, r), wa)"
    by (cases "private_stream E w") auto
  show ?thesis
  proof (cases "r = Some (ClientResponseError 403) \<and>
                handle_client_response_error E (refreshes wa) = None")
    case True
    obtain second r2 wb where
      b: "private_stream E (wa\<lparr>refreshes := Suc (refreshes wa)\<rparr>) = ((second, r2), wb)"
      by (cases "private_stream E (wa\<lparr>refreshes := Suc (refreshes wa)\<rparr>)") auto
    from assms a True b have "ys = first @ second" "r2 = None"
      by (auto simp: stream_def Let_def split: if_splits)
    then show ?thesis
      using private_stream_ok[of E _ second wb] b by simp
  next
    case False
    from assms a False have "ys = first" "r = None"
      by (auto simp: stream_def Let_def split: if_splits option.splits exn.splits)
    then show ?thesis
      using private_stream_ok[of E w first wa] a by simp
  qed
qed

lemma save_ok: "save E p s w = (None, s1, w1) \<Longrightarrow> nonempty_file w1 p"
  by (auto simp: save_def nonempty_file_def split: if_splits prod.splits dest: stream_ok)

lemma stat_size_ok: "nonempty_file w p \<Longrightarrow> \<exists>n. stat_size p w = Inr n"
  by (auto simp: nonempty_file_def stat_size_def split: option.splits)

lemma synth_tier_ok:
  assumes "\<forall>v v'. communicate_save E p v = (None, v') \<longrightarrow> nonempty_file v' p"
    and "synth_tier E p t w = (Inr n, w1)"
  shows "nonempty_file w1 p"
  using assms
  by (cases t) (auto simp: synth_tier_def split: prod.splits option.splits dest: save_ok)

lemma attempt_ok:
  "attempt_generate_audio synth w = (Inr n, evs, w1) \<Longrightarrow> \<exists>t v. synth t v = (Inr n, w1)"
  by (auto simp: attempt_generate_audio_def split: prod.splits sum.splits)

lemma retry_loop_ok:
  "retry_loop synth m atts prev w = (Inr n, evs, w1) \<Longrightarrow> \<exists>t v. synth t v = (Inr n, w1)"
proof (induction atts arbitrary: prev w evs)
  case Nil
  then show ?case by simp
next
  case (Cons a atts)
  obtain r evs1 wa where a: "attempt_generate_audio synth w = (r, evs1, wa)"
    by (cases "attempt_generate_audio synth w") auto
  show ?case
  proof (cases r)
    case (Inl e)
    obtain r2 evs2 wb where b: "retry_loop synth m atts (Some e) wa = (r2, evs2, wb)"
      by (cases "retry_loop synth m atts (Some e) wa") auto
    have "r2 = Inr n" "wb = w1"
      using Cons.prems a Inl b by simp_all
    then show ?thesis
      using Cons.IH[of "Some e" wa evs2] b by simp
  next
    case (Inr k)
    then show ?thesis
      using Cons.prems a attempt_ok[of synth w n evs1 wa] by simp
  qed
qed

lemma generate_audio_ok:
  "generate_audio synth w = (Inr n, evs, w1) \<Longrightarrow> \<exists>t v. synth t v = (Inr n, w1)"
proof -
  assume a: "generate_audio synth w = (Inr n, evs, w1)"
  obtain r evs1 wa where b: "retry_loop synth 3 [1, 2, 3] None w = (r, evs1, wa)"
    by (cases "retry_loop synth 3 [1, 2, 3] None w") auto
  from a b have "r = Inr n" "wa = w1"
    by (auto simp: generate_audio_unfold split: sum.splits option.splits exn.splits)
  then show ?thesis
    using retry_loop_ok[of synth 3 "[1, 2, 3]" None w n evs1 w1] b by simp
qed

lemma cleanup_other: "p \<notin> set fs \<Longrightarrow> files (cleanup fs w) p = files w p"
  unfolding cleanup_def
  by (induction fs arbitrary: w) (auto simp: unlink_if_exists_def)

lemma generate_chunks_temps:
  "generate_chunks E chunks acc w = (r, fs, w1) \<Longrightarrow> set fs \<subseteq> set acc \<union> range (temp_name E)"
proof (induction chunks arbitrary: acc w)
  case Nil
  then show ?case by auto
next
  case (Cons c chunks)
  then show ?case
    by (fastforce simp: temp_file_name_def split: prod.splits sum.splits)
qed

lemma unlink_other: "p \<noteq> q \<Longrightarrow> nonempty_file v q \<Longrightarrow> nonempty_file (unlink_if_exists p v) q"
  by (simp add: unlink_if_exists_def nonempty_file_def)

lemma merge_ok:
  assumes m: "merge_audio_files E fs out w = (None, w1)"
    and tool: "\<forall>l v v'. ffmpeg E l out v = (None, v') \<longrightarrow> nonempty_file v' out"
    and ne: "list_path E out \<noteq> out"
  shows "nonempty_file w1 out"
proof -
  let ?l = "list_path E out"
  let ?v = "w\<lparr>files := (files w)(?l \<mapsto> manifest fs)\<rparr>"
  obtain r v' where f: "ffmpeg E ?l out ?v = (r, v')"
    by (cases "ffmpeg E ?l out ?v") auto
  from m f have "r = None" "w1 = unlink_if_exists ?l v'"
    by (auto simp: merge_audio_files_def Let_def split: if_splits option.splits exn.splits)
  moreover have "nonempty_file v' out"
    using tool f \<open>r = None\<close> by blast
  ultimately show ?thesis
    using ne by (simp add: unlink_other)
qed


text \<open>
  The synthesis to a file returns (or raises): the chunker returns on the 5000 of the source.
\<close>

lemma generate_single_file_returns: "\<exists>r. generate_single_file E tx final_destination w = Some r"
proof (cases "prepare_text E tx")
  case (Inl e)
  then show ?thesis by (simp add: generate_single_file_def)
next
  case (Inr prepared)
  have pos: "0 < (5000::nat)"
    by simp
  from chunk_text_total_and_bounded[OF pos, of prepared]
  obtain chunks where "chunk_text prepared 5000 = Some chunks"
    by blast
  then show ?thesis
    using Inr by (simp add: generate_single_file_def split: prod.splits sum.splits option.splits)
qed

text \<open>
  What the guarantees of the collaborators would give: if a returning save of the third-party
  client and a successful run of the concatenation tool each left a non-empty file, and neither
  the manifest path nor a temporary name were the destination, the destination would be
  non-empty after every return on a text that is not blank.
\<close>

lemma destination_nonempty_under_contracts:
  assumes prep: "prepare_text E text = Inr prepared"
    and lib: "\<forall>v v'. communicate_save E final_destination v = (None, v') \<longrightarrow>
                nonempty_file v' final_destination"
    and tool: "\<forall>l v v'. ffmpeg E l final_destination v = (None, v') \<longrightarrow>
                nonempty_file v' final_destination"
    and lp: "list_path E final_destination \<noteq> final_destination"
    and tn: "\<forall>k. temp_name E k \<noteq> final_destination"
  shows "(blank prepared \<longrightarrow> generate_single_file E text final_destination w = Some (None, w)) \<and>
         (\<not> blank prepared \<longrightarrow>
            generate_single_file E text final_destination w = Some (None, w') \<longrightarrow>
            nonempty_file w' final_destination)"
proof (intro conjI impI)
  assume "blank prepared"
  then show "generate_single_file E text final_destination w = Some (None, w)"
    using prep by (simp add: generate_single_file_def)
next
  assume nb: "\<not> blank prepared"
    and g: "generate_single_file E text final_destination w = Some (None, w')"
  from g prep nb obtain chunks where c: "chunk_text prepared 5000 = Some chunks"
    by (auto simp: generate_single_file_def split: option.splits)
  show "nonempty_file w' final_destination"
  proof (cases "length chunks = 1")
    case True
    obtain r evs w1 where a: "generate_audio (synth_tier E final_destination) w = (r, evs, w1)"
      by (cases "generate_audio (synth_tier E final_destination) w") auto
    from g prep nb c True a obtain n where "r = Inr n" "w1 = w'"
      by (auto simp: generate_single_file_def split: sum.splits)
    then obtain t v where "synth_tier E final_destination t v = (Inr n, w')"
      using generate_audio_ok[of "synth_tier E final_destination" w n evs w'] a by auto
    then show ?thesis
      using synth_tier_ok[OF lib] by blast
  next
    case False
    obtain r fs w1 where a: "generate_chunks E chunks [] w = (r, fs, w1)"
      by (cases "generate_chunks E chunks [] w") auto
    obtain r2 w2 where m: "merge_audio_files E fs final_destination w1 = (r2, w2)"
      by (cases "merge_audio_files E fs final_destination w1") auto
    from g prep nb c False a m have "r = None" "r2 = None" "w' = cleanup fs w2"
      by (auto simp: generate_single_file_def split: option.splits)
    have "final_destination \<notin> set fs"
      using generate_chunks_temps[OF a] tn by auto
    moreover have "nonempty_file w2 final_destination"
      using merge_ok[OF _ tool lp] m \<open>r2 = None\<close> by blast
    ultimately show ?thesis
      using \<open>w' = cleanup fs w2\<close> by (simp add: nonempty_file_def cleanup_other)
  qed
qed







text \<open>
  The size is not checked after the third-party save: with no network and a third-party save
  that writes an empty file and returns, the synthesis of a text that is not blank returns
  without raising and the destination is empty.
\<close>

lemma empty_third_party_save:
  "generate_single_file empty_save_env [104, 105] ''out.mp3'' empty_world =
     Some (None, empty_world\<lparr>files := [''out.mp3'' \<mapsto> []], connections := 2\<rparr>)"
  by (simp add: generate_single_file_def empty_save_env_def fake_env_def blank_def strip_def
        is_space_def chunk_text_def generate_audio_unfold attempt_generate_audio_def
        synth_tier_def save_def stream_def private_stream_def run_stream_def new_session_def
        stat_size_def empty_world_def)

end
